theory Spec2Isabelle
  imports Main "HOL-Library.Multiset"
begin

section \<open>Data model of \<^verbatim>\<open>scripts/scan_skills.py\<close>\<close>

datatype ScanLevel = BASIC | DEEP | FULL

datatype RiskLevel = CRITICAL | HIGH | MEDIUM | LOW | INFO

text \<open>
  Text read from a scanned file is a Python \<^verbatim>\<open>str\<close>: a sequence of Unicode code points,
  which is what \<^verbatim>\<open>len\<close>, slicing and \<^verbatim>\<open>strip\<close> count. Names of skills, categories and the
  literals of the rule catalogue are \<^typ>\<open>string\<close>.
\<close>

type_synonym unicode = "nat list"

text \<open>A \<^verbatim>\<open>pathlib\<close> path is the sequence of its \<^verbatim>\<open>parts\<close>; an absolute path starts with
  the part \<^verbatim>\<open>/\<close>.\<close>

type_synonym path = "string list"

record RiskFinding =
  skill_name :: string
  file_path :: string
  line_number :: nat
  risk_level :: RiskLevel
  category :: string
  description :: string
  code_snippet :: unicode
  recommendation :: string

text \<open>The field \<^verbatim>\<open>skill_name\<close> of \<^verbatim>\<open>ScanResult\<close> is \<open>result_skill_name\<close> here, because
  \<^verbatim>\<open>RiskFinding\<close> has a field of the same name.\<close>

record ScanResult =
  result_skill_name :: string
  is_safe :: bool
  findings :: "RiskFinding list"
  total_files :: nat
  scanned_files :: nat

text \<open>The attributes of a \<^verbatim>\<open>SkillSecurityScanner\<close> that the scan reads or writes. The three
  pattern dictionaries are assigned once by \<^verbatim>\<open>_init_patterns\<close> and never changed, so they
  are constants below.\<close>

record scanner =
  skills_dir :: path
  scan_level :: ScanLevel
  results :: "ScanResult list"
  use_whitelist :: bool
  whitelist :: "string set"
  skipped_whitelist :: "string list"


section \<open>Rule catalogue (\<^verbatim>\<open>_init_patterns\<close>)\<close>

text \<open>
  A Python dictionary keeps its keys in insertion order; assigning to an existing key keeps
  the key's position. \<open>dict_set\<close> is \<^verbatim>\<open>d[k] = v\<close>, and \<open>dict_merge d kvs\<close> is the display
  \<^verbatim>\<open>{**d, k1: v1, ...}\<close>.
\<close>

type_synonym ('k, 'v) dict = "('k \<times> 'v) list"

fun dict_set :: "('k, 'v) dict \<Rightarrow> 'k \<Rightarrow> 'v \<Rightarrow> ('k, 'v) dict" where
  "dict_set [] k v = [(k, v)]"
| "dict_set ((k', v') # d) k v =
     (if k' = k then (k', v) # d else (k', v') # dict_set d k v)"

fun dict_merge :: "('k, 'v) dict \<Rightarrow> ('k \<times> 'v) list \<Rightarrow> ('k, 'v) dict" where
  "dict_merge d [] = d"
| "dict_merge d ((k, v) # kvs) = dict_merge (dict_set d k v) kvs"

definition dict_keys :: "('k, 'v) dict \<Rightarrow> 'k list" where
  "dict_keys d = map fst d"

definition dict_get :: "('k, 'v) dict \<Rightarrow> 'k \<Rightarrow> 'v option" where
  "dict_get d k = map_of d k"

text \<open>
  The patterns are Python raw strings. A backslash cannot be written inside a string
  literal here, so the literals below write \<^verbatim>\<open>%\<close> (which occurs in no pattern of the
  source) for each backslash, and \<open>raw\<close> puts the backslashes back.
\<close>

definition raw :: "string \<Rightarrow> string" where
  "raw s = map (\<lambda>c. if c = CHR ''%'' then CHR 0x5C else c) s"

type_synonym rule = "string \<times> string"

definition basic_patterns :: "(string, rule list) dict" where
  \<open>basic_patterns =
    [(''sensitive_api_keys'',
       [(raw ''(?:api[_-]?key|apikey|api_key)["%']?%s*[:=]%s*["%']([a-zA-Z0-9_-]{20,})["%']'',
         ''Possible API Key hardcoded''),
        (raw ''(?:token|access_token|auth_token|bearer[_-]?token)["%']?%s*[:=]%s*["%']([a-zA-Z0-9_.-]{20,})["%']'',
         ''Possible auth token hardcoded''),
        (raw ''(?:password|passwd|pwd)["%']?%s*[:=]%s*["%']([^"%'%s]{8,})["%']'',
         ''Possible password hardcoded''),
        (raw ''(?:secret|private[_-]?key|secret_key)["%']?%s*[:=]%s*["%']([a-zA-Z0-9/+=_-]{16,})["%']'',
         ''Possible secret key hardcoded'')]),
     (''dangerous_commands'',
       [(raw ''%b(?:rm%s+-rf|rmdir%s+/s)%b'',
         ''Dangerous file deletion command''),
        (raw ''%beval%s*%('',
         ''Dynamic code execution with eval''),
        (raw ''%bexec%s*%('',
         ''Dynamic code execution with exec''),
        (raw ''%bsubprocess%.(?:call|run|Popen)%s*%(%s*["%']?%s*%$'',
         ''Possible command injection''),
        (raw ''%bos%.system%s*%('',
         ''Command execution with os.system'')]),
     (''suspicious_network'',
       [(raw ''(?:requests|urllib|fetch|axios)%.(?:get|post|put|delete|patch)%s*%(%s*["%']https?://(?:[^"%']*?)(?:key|token|password|secret|credential)'',
         ''Network request with possible sensitive data''),
        (raw ''["%']https?://(?:localhost|127%.0%.0%.1|0%.0%.0%.0):%d+["%']'',
         ''Localhost port connection'')])]\<close>

definition deep_patterns :: "(string, rule list) dict" where
  \<open>deep_patterns = dict_merge basic_patterns
    [(''code_obfuscation'',
       [(raw ''(?:%%x[0-9a-fA-F]{2}|%%u[0-9a-fA-F]{4}|%%[0-7]{3}){5,}'',
         ''Possible code obfuscation (escape characters)''),
        (raw ''chr%s*%(%s*%d+%s*%)%s*%)'',
         ''Possible character encoding obfuscation''),
        (raw ''%bbase64%.(?:b64decode|decodebytes|standard_b64decode)%s*%('',
         ''Base64 decode operation''),
        (raw ''(?:exec|eval)%s*%(%s*(?:base64%.decode|chr%(|__import__%()'',
         ''Multi-layer obfuscated code execution'')]),
     (''suspicious_file_ops'',
       [(raw ''%bopen%s*%(%s*["%']~/(?:%.ssh|%.gnupg|%.aws)'',
         ''Accessing sensitive config directory''),
        (raw ''%bshutil%.(?:copy|copytree|move|rmtree)%s*%('',
         ''Bulk file operations''),
        (raw ''%b(?:sendmail|smtplib%.SMTP)%s*%('',
         ''Email sending functionality''),
        (raw ''%bpathlib%.Path%s*%(%s*["%']~/%.?'',
         ''Accessing user home directory'')]),
     (''data_exfiltration'',
       [(raw ''(?:requests|urllib)%.(?:get|post)%s*%(%s*["%']https?://.*?(?:exfil|log|track|telemetry|analytics|beacon)'',
         ''Possible data exfiltration request''),
        (raw ''%bsocket%.(?:create_connection|connect)%s*%('',
         ''Raw socket connection''),
        (raw ''["%']https?://(?:[a-z0-9-]+%.)?(?:pastebin|gist%.github|discord|webhook|telegram)%.'',
         ''Data possibly sent to external service'')]),
     (''shell_injection'',
       [(raw ''%bsubprocess%.(?:call|run|Popen)%s*%(%s*.*?%$'',
         ''Possible shell variable injection''),
        (raw ''%bos%.popen%s*%('',
         ''Command execution with os.popen''),
        (raw ''%bcommands%.getoutput%s*%('',
         ''Command execution with commands.getoutput'')])]\<close>

definition full_patterns :: "(string, rule list) dict" where
  \<open>full_patterns = dict_merge deep_patterns
    [(''behavior_analysis'',
       [(raw ''(?:while%s+True|for%s+%w+%s+in%s+range%(%s*%d{6,}'',
         ''Possible infinite loop or massive iteration''),
        (raw ''%btime%.sleep%s*%(%s*%d{3,}'',
         ''Long sleep delay (possible delay attack)''),
        (raw ''%bthreading%.(?:Thread|Process)%s*%('',
         ''Multi-threading/process creation''),
        (raw ''%bmultiprocessing%.(?:Process|Pool)%s*%('',
         ''Multi-process creation'')]),
     (''environment_fingerprinting'',
       [(raw ''%b(?:os|platform)%.(?:uname|system|release|version|machine)%s*%('',
         ''System fingerprinting''),
        (raw ''%b(?:os%.getenv|sys%.version|platform%.platform)%s*%('',
         ''Environment info gathering'')]),
     (''persistence_hooks'',
       [(raw ''~/(?:%.bashrc|%.zshrc|%.profile|%.bash_profile)'',
         ''Shell config file modification''),
        (raw ''(?:crontab|systemd|launchd|plist)'',
         ''Cron job or service configuration'')])]\<close>

text \<open>The dictionary that \<^verbatim>\<open>scan_file\<close> selects for the scanner's level.\<close>

definition select_patterns :: "scanner \<Rightarrow> (string, rule list) dict" where
  "select_patterns self =
     (if scan_level self = BASIC then basic_patterns
      else if scan_level self = DEEP then deep_patterns
      else full_patterns)"


section \<open>Risk classifier (\<^verbatim>\<open>get_risk_level\<close>, \<^verbatim>\<open>get_recommendation\<close>)\<close>

definition critical_categories :: "string set" where
  "critical_categories = {''dangerous_commands'', ''shell_injection'', ''persistence_hooks''}"

definition high_categories :: "string set" where
  "high_categories = {''sensitive_api_keys'', ''data_exfiltration'', ''code_obfuscation''}"

definition medium_categories :: "string set" where
  "medium_categories = {''suspicious_file_ops'', ''suspicious_network'', ''behavior_analysis''}"

text \<open>Both are methods: they receive the scanner and do not read it.\<close>

definition get_risk_level :: "scanner \<Rightarrow> string \<Rightarrow> RiskLevel" where
  "get_risk_level self c =
     (if c \<in> critical_categories then CRITICAL
      else if c \<in> high_categories then HIGH
      else if c \<in> medium_categories then MEDIUM
      else LOW)"

definition recommendations :: "(string, string) dict" where
  "recommendations =
    [(''sensitive_api_keys'', ''Use environment variables or config files for sensitive info''),
     (''dangerous_commands'', ''Remove dangerous commands or add strict validation''),
     (''suspicious_network'', ''Review network requests for legitimacy''),
     (''code_obfuscation'', ''Code obfuscation may hide malicious behavior, manual review needed''),
     (''suspicious_file_ops'', ''Review necessity and permissions of file operations''),
     (''data_exfiltration'', ''Possible data exfiltration detected, review network communications''),
     (''shell_injection'', ''Use parameterized commands instead of string concatenation''),
     (''behavior_analysis'', ''Review reasonableness of anomalous behavior''),
     (''environment_fingerprinting'', ''Confirm necessity of environment probing''),
     (''persistence_hooks'', ''Persistence mechanism detected, review needed'')]"

definition get_recommendation :: "scanner \<Rightarrow> string \<Rightarrow> string" where
  "get_recommendation self c =
     (case dict_get recommendations c of
        Some r \<Rightarrow> r
      | None \<Rightarrow> ''Manual review recommended'')"


section \<open>Highest risk of a result: the two loops\<close>

text \<open>
  \<^verbatim>\<open>SkillSecurityScanner.print_results\<close>, lines 350 to 361: the chain of \<^verbatim>\<open>elif\<close> over the
  findings, with the current \<^verbatim>\<open>highest_risk\<close> as accumulator. The first branch ends the
  loop (\<^verbatim>\<open>break\<close>).
\<close>

fun highest_risk_print :: "RiskFinding list \<Rightarrow> RiskLevel \<Rightarrow> RiskLevel" where
  "highest_risk_print [] highest_risk = highest_risk"
| "highest_risk_print (finding # rest) highest_risk =
     (if risk_level finding = CRITICAL then CRITICAL
      else if risk_level finding = HIGH \<and> highest_risk \<in> {INFO, LOW, MEDIUM}
        then highest_risk_print rest HIGH
      else if risk_level finding = MEDIUM \<and> highest_risk \<in> {INFO, LOW}
        then highest_risk_print rest MEDIUM
      else if highest_risk = INFO
        then highest_risk_print rest LOW
      else highest_risk_print rest highest_risk)"

text \<open>\<^verbatim>\<open>InteractiveScanner.run\<close>, lines 104 to 116: the numeric priority table and the
  comparison against the current maximum.\<close>

fun risk_priority :: "RiskLevel \<Rightarrow> nat" where
  "risk_priority CRITICAL = 4"
| "risk_priority HIGH = 3"
| "risk_priority MEDIUM = 2"
| "risk_priority LOW = 1"
| "risk_priority INFO = 0"

fun highest_risk_run :: "RiskFinding list \<Rightarrow> RiskLevel \<Rightarrow> RiskLevel" where
  "highest_risk_run [] highest_risk = highest_risk"
| "highest_risk_run (finding # rest) highest_risk =
     (if risk_priority (risk_level finding) > risk_priority highest_risk
        then highest_risk_run rest (risk_level finding)
      else highest_risk_run rest highest_risk)"


section \<open>Classification of results (\<^verbatim>\<open>print_results\<close>, lines 340 to 371)\<close>

record groups =
  critical_skills :: "(string \<times> ScanResult) list"
  high_risk_skills :: "(string \<times> ScanResult) list"
  medium_risk_skills :: "(string \<times> ScanResult) list"
  low_risk_skills :: "(string \<times> ScanResult) list"

definition no_groups :: groups where
  "no_groups = \<lparr>critical_skills = [], high_risk_skills = [],
                 medium_risk_skills = [], low_risk_skills = []\<rparr>"

fun classify_loop :: "ScanResult list \<Rightarrow> groups \<Rightarrow> groups" where
  "classify_loop [] g = g"
| "classify_loop (result # rest) g =
     (if is_safe result then classify_loop rest g
      else
        let highest_risk = highest_risk_print (findings result) INFO;
            skill_info = (result_skill_name result, result)
        in if highest_risk = CRITICAL
             then classify_loop rest (g\<lparr>critical_skills := critical_skills g @ [skill_info]\<rparr>)
           else if highest_risk = HIGH
             then classify_loop rest (g\<lparr>high_risk_skills := high_risk_skills g @ [skill_info]\<rparr>)
           else if highest_risk = MEDIUM
             then classify_loop rest (g\<lparr>medium_risk_skills := medium_risk_skills g @ [skill_info]\<rparr>)
           else classify_loop rest (g\<lparr>low_risk_skills := low_risk_skills g @ [skill_info]\<rparr>))"

definition classify :: "ScanResult list \<Rightarrow> groups" where
  "classify rs = classify_loop rs no_groups"

text \<open>The group that the report prints under a level; there is none for \<open>INFO\<close>.\<close>

fun group_of :: "groups \<Rightarrow> RiskLevel \<Rightarrow> (string \<times> ScanResult) list" where
  "group_of g CRITICAL = critical_skills g"
| "group_of g HIGH = high_risk_skills g"
| "group_of g MEDIUM = medium_risk_skills g"
| "group_of g LOW = low_risk_skills g"
| "group_of g INFO = []"


section \<open>Environment: exceptions, the file system, \<^verbatim>\<open>pathlib\<close>, \<^verbatim>\<open>re\<close>\<close>

datatype exn =
  FileNotFoundError | NotADirectoryError | IsADirectoryError | PermissionError
  | OSError | ValueError | re_error

text \<open>
  A node of the directory tree. A \<open>File\<close> holds what \<^verbatim>\<open>f.readlines()\<close> returns for it
  (decoding uses \<^verbatim>\<open>errors='ignore'\<close>, so it never raises); \<open>Locked e\<close> is a file whose
  \<^verbatim>\<open>open\<close> or read raises \<open>e\<close>; a \<open>Dir\<close> lists its entries in the order the system
  enumerates them.
\<close>

datatype node = File "unicode list" | Locked exn | Dir "(string \<times> node) list"

text \<open>
  What the program does not define itself: the directory tree and the working directory,
  \<^verbatim>\<open>re.finditer(pattern, line, re.IGNORECASE)\<close> as the number of matches it yields or
  the exception it raises, and the order in which the interpreter iterates over the set
  literal \<^verbatim>\<open>extensions\<close> of \<^verbatim>\<open>scan_skill\<close>.
\<close>

record env =
  fs_root :: node
  cwd :: "string list"
  finditer :: "string \<Rightarrow> unicode \<Rightarrow> exn + nat"
  set_order :: "string list"

definition is_root :: "string \<Rightarrow> bool" where
  "is_root part = (part = ''/'' \<or> part = ''//'')"

fun walk :: "node list \<Rightarrow> node \<Rightarrow> string list \<Rightarrow> node option" where
  "walk up n [] = Some n"
| "walk up (Dir es) (c # cs) =
     (if c = ''..'' then (case up of [] \<Rightarrow> walk [] (Dir es) cs | a # as \<Rightarrow> walk as a cs)
      else (case map_of es c of None \<Rightarrow> None | Some m \<Rightarrow> walk (Dir es # up) m cs))"
| "walk up _ (c # cs) = None"

definition path_node :: "env \<Rightarrow> path \<Rightarrow> node option" where
  "path_node e p =
     (case p of
        [] \<Rightarrow> walk [] (fs_root e) (cwd e)
      | part # rest \<Rightarrow>
          if is_root part then walk [] (fs_root e) rest
          else walk [] (fs_root e) (cwd e @ p))"

definition path_exists :: "env \<Rightarrow> path \<Rightarrow> bool" where
  "path_exists e p = (path_node e p \<noteq> None)"

definition is_dir :: "env \<Rightarrow> path \<Rightarrow> bool" where
  "is_dir e p = (case path_node e p of Some (Dir es) \<Rightarrow> True | _ \<Rightarrow> False)"

definition iterdir :: "env \<Rightarrow> path \<Rightarrow> exn + path list" where
  "iterdir e p =
     (case path_node e p of
        Some (Dir es) \<Rightarrow> Inr (map (\<lambda>entry. p @ [fst entry]) es)
      | Some _ \<Rightarrow> Inl NotADirectoryError
      | None \<Rightarrow> Inl FileNotFoundError)"

text \<open>\<^verbatim>\<open>open(file_path, 'r', encoding='utf-8', errors='ignore')\<close> followed by
  \<^verbatim>\<open>f.readlines()\<close>.\<close>

definition readlines :: "env \<Rightarrow> path \<Rightarrow> exn + unicode list" where
  "readlines e p =
     (case path_node e p of
        Some (File ls) \<Rightarrow> Inr ls
      | Some (Locked x) \<Rightarrow> Inl x
      | Some (Dir es) \<Rightarrow> Inl IsADirectoryError
      | None \<Rightarrow> Inl FileNotFoundError)"

text \<open>Shell-style matching of one name, for patterns made of \<^verbatim>\<open>*\<close>, \<^verbatim>\<open>?\<close> and literal
  characters (the patterns of \<^verbatim>\<open>scan_skill\<close> are a \<^verbatim>\<open>*\<close> followed by an extension).\<close>

fun fnmatch :: "string \<Rightarrow> string \<Rightarrow> bool" where
  "fnmatch name [] = (name = [])"
| "fnmatch name (p # ps) =
     (if p = CHR ''*'' then
        fnmatch name ps \<or> (case name of [] \<Rightarrow> False | c # cs \<Rightarrow> fnmatch cs (p # ps))
      else
        (case name of
           [] \<Rightarrow> False
         | c # cs \<Rightarrow> (p = CHR ''?'' \<or> p = c) \<and> fnmatch cs ps))"

text \<open>
  \<^verbatim>\<open>Path.rglob(pattern)\<close> for a one-component pattern: every entry below the directory,
  at any depth, whose name matches, be it a file or a directory; the entries of a
  directory come before those of its subdirectories. On a path that is not a directory
  it yields nothing.
\<close>

fun rglob_node :: "string \<Rightarrow> path \<Rightarrow> node \<Rightarrow> path list" where
  "rglob_node pat p (Dir es) =
     map (\<lambda>entry. p @ [fst entry]) (filter (\<lambda>entry. fnmatch (fst entry) pat) es)
     @ concat (map (\<lambda>entry. rglob_node pat (p @ [fst entry]) (snd entry)) es)"
| "rglob_node pat p _ = []"

definition rglob :: "env \<Rightarrow> path \<Rightarrow> string \<Rightarrow> path list" where
  "rglob e p pat = (case path_node e p of Some n \<Rightarrow> rglob_node pat p n | None \<Rightarrow> [])"

subsection \<open>Pure path operations\<close>

fun split_on :: "char \<Rightarrow> string \<Rightarrow> string list" where
  "split_on sep [] = [[]]"
| "split_on sep (c # cs) =
     (if c = sep then [] # split_on sep cs
      else (case split_on sep cs of w # ws \<Rightarrow> (c # w) # ws | [] \<Rightarrow> [[c]]))"

text \<open>The parts of a path written as a string: the root if there is one, then the
  components that are neither empty nor \<^verbatim>\<open>.\<close>.\<close>

definition parse_parts :: "string \<Rightarrow> path" where
  "parse_parts s =
     (let root = (if take 2 s = ''//'' \<and> take 3 s \<noteq> ''///'' then [''//'']
                  else if take 1 s = ''/'' then [''/'']
                  else [])
      in root @ filter (\<lambda>c. c \<noteq> [] \<and> c \<noteq> ''.'') (split_on CHR ''/'' s))"

text \<open>\<^verbatim>\<open>p / s\<close>: a rooted right operand replaces the left one.\<close>

definition joinpath :: "path \<Rightarrow> string \<Rightarrow> path" where
  "joinpath p s =
     (let q = parse_parts s
      in case q of [] \<Rightarrow> p | part # rest \<Rightarrow> if is_root part then q else p @ q)"

text \<open>\<^verbatim>\<open>p.name\<close>: the last part, empty for the empty path and for a bare root.\<close>

definition name :: "path \<Rightarrow> string" where
  "name p = (case p of [] \<Rightarrow> [] | part # rest \<Rightarrow>
               if rest = [] \<and> is_root part then [] else last p)"

text \<open>\<^verbatim>\<open>p.relative_to(other)\<close>: the parts of \<open>p\<close> after those of \<open>other\<close>; \<open>None\<close> is the
  \<^verbatim>\<open>ValueError\<close> raised when \<open>other\<close> is not a leading part of \<open>p\<close>.\<close>

definition relative_to :: "path \<Rightarrow> path \<Rightarrow> path option" where
  "relative_to p other =
     (if take (length other) p = other \<and> \<not> (other = [] \<and> p \<noteq> [] \<and> is_root (hd p))
      then Some (drop (length other) p) else None)"

fun join_with :: "string \<Rightarrow> string list \<Rightarrow> string" where
  "join_with sep [] = []"
| "join_with sep [x] = x"
| "join_with sep (x # y # ys) = x @ sep @ join_with sep (y # ys)"

text \<open>\<^verbatim>\<open>str(p)\<close> on a POSIX system.\<close>

definition str_path :: "path \<Rightarrow> string" where
  "str_path p =
     (case p of
        [] \<Rightarrow> ''.''
      | part # rest \<Rightarrow> if is_root part then part @ join_with ''/'' rest else join_with ''/'' p)"

subsection \<open>Strings\<close>

text \<open>The code points for which \<^verbatim>\<open>str.isspace\<close> holds; \<^verbatim>\<open>str.strip()\<close> removes them at
  both ends.\<close>

definition isspace :: "nat \<Rightarrow> bool" where
  "isspace c =
     ((9 \<le> c \<and> c \<le> 13) \<or> (28 \<le> c \<and> c \<le> 32) \<or> c = 133 \<or> c = 160 \<or> c = 5760
      \<or> (8192 \<le> c \<and> c \<le> 8202) \<or> c = 8232 \<or> c = 8233 \<or> c = 8239 \<or> c = 8287
      \<or> c = 12288)"

definition strip :: "unicode \<Rightarrow> unicode" where
  "strip s = rev (dropWhile isspace (rev (dropWhile isspace s)))"

definition ustr :: "string \<Rightarrow> unicode" where
  "ustr s = map of_char s"

definition startswith :: "string \<Rightarrow> string \<Rightarrow> bool" where
  "startswith s pre = (take (length pre) s = pre)"

subsection \<open>Observable effects\<close>

datatype message =
  Scanning string
  | Skip_whitelisted
  | Cannot_read_file path exn
  | Skill_not_found string

datatype event =
  Print message | Open_file path | Rglob path string | Exists path | Iterdir path | Is_dir path


section \<open>File scanner (\<^verbatim>\<open>scan_file\<close>)\<close>

text \<open>
  A \<^verbatim>\<open>for\<close> loop whose body updates a state and may raise: the loop stops at the first
  exception, and the state reached so far stays (the findings list is appended to in
  place).
\<close>

fun for_each :: "('a \<Rightarrow> 's \<Rightarrow> 's \<times> exn option) \<Rightarrow> 'a list \<Rightarrow> 's \<Rightarrow> 's \<times> exn option" where
  "for_each body [] s = (s, None)"
| "for_each body (x # xs) s =
     (case body x s of
        (s', Some e) \<Rightarrow> (s', Some e)
      | (s', None) \<Rightarrow> for_each body xs s')"

text \<open>Lines 251 to 253.\<close>

definition make_snippet :: "unicode \<Rightarrow> unicode" where
  "make_snippet line =
     (let snippet = strip line
      in if length snippet > 100 then take 100 snippet @ ustr ''...'' else snippet)"

text \<open>Lines 251 to 264: the finding built for one match; \<^verbatim>\<open>relative_to\<close> may raise.\<close>

definition new_finding ::
  "scanner \<Rightarrow> path \<Rightarrow> string \<Rightarrow> nat \<Rightarrow> unicode \<Rightarrow> string \<Rightarrow> string \<Rightarrow> exn + RiskFinding" where
  "new_finding self fp skill line_num line cat descr =
     (let snippet = make_snippet line
      in case relative_to fp (skills_dir self) of
           None \<Rightarrow> Inl ValueError
         | Some rel \<Rightarrow>
             Inr \<lparr>skill_name = skill,
                  file_path = str_path rel,
                  line_number = line_num,
                  risk_level = get_risk_level self cat,
                  category = cat,
                  description = descr,
                  code_snippet = snippet,
                  recommendation = get_recommendation self cat\<rparr>)"

text \<open>Line 250, 265: one finding appended for each match.\<close>

definition scan_matches ::
  "scanner \<Rightarrow> path \<Rightarrow> string \<Rightarrow> nat \<Rightarrow> unicode \<Rightarrow> string \<Rightarrow> string \<Rightarrow> nat
     \<Rightarrow> RiskFinding list \<Rightarrow> RiskFinding list \<times> exn option" where
  "scan_matches self fp skill line_num line cat descr n =
     for_each (\<lambda>match fs.
        case new_finding self fp skill line_num line cat descr of
          Inl e \<Rightarrow> (fs, Some e)
        | Inr finding \<Rightarrow> (fs @ [finding], None)) [0..<n]"

text \<open>Lines 248, 249: the rules of one category on one line.\<close>

definition scan_rules ::
  "env \<Rightarrow> scanner \<Rightarrow> path \<Rightarrow> string \<Rightarrow> nat \<Rightarrow> unicode \<Rightarrow> string \<Rightarrow> rule list
     \<Rightarrow> RiskFinding list \<Rightarrow> RiskFinding list \<times> exn option" where
  "scan_rules e self fp skill line_num line cat =
     for_each (\<lambda>rl fs.
        case finditer e (fst rl) line of
          Inl x \<Rightarrow> (fs, Some x)
        | Inr n \<Rightarrow> scan_matches self fp skill line_num line cat (snd rl) n fs)"

text \<open>Line 247: the categories of the selected dictionary on one line.\<close>

definition scan_line ::
  "env \<Rightarrow> scanner \<Rightarrow> path \<Rightarrow> string \<Rightarrow> (string, rule list) dict \<Rightarrow> nat \<times> unicode
     \<Rightarrow> RiskFinding list \<Rightarrow> RiskFinding list \<times> exn option" where
  "scan_line e self fp skill patterns numbered =
     for_each (\<lambda>item. scan_rules e self fp skill (fst numbered) (snd numbered) (fst item) (snd item))
       patterns"

text \<open>\<^verbatim>\<open>enumerate(lines, 1)\<close>.\<close>

definition enumerate1 :: "'a list \<Rightarrow> (nat \<times> 'a) list" where
  "enumerate1 xs = zip [1..<Suc (length xs)] xs"

text \<open>
  \<^verbatim>\<open>scan_file\<close>: the findings returned and the effects, in order. Every exception raised
  inside the \<^verbatim>\<open>try\<close> block is caught, a warning is printed, and the findings appended
  before it are returned.
\<close>

definition scan_file :: "env \<Rightarrow> scanner \<Rightarrow> path \<Rightarrow> string \<Rightarrow> RiskFinding list \<times> event list" where
  "scan_file e self fp skill =
     (case readlines e fp of
        Inl x \<Rightarrow> ([], [Open_file fp, Print (Cannot_read_file fp x)])
      | Inr lines \<Rightarrow>
          (case for_each (scan_line e self fp skill (select_patterns self)) (enumerate1 lines) [] of
             (fs, None) \<Rightarrow> (fs, [Open_file fp])
           | (fs, Some x) \<Rightarrow> (fs, [Open_file fp, Print (Cannot_read_file fp x)])))"


section \<open>Skill scanner (\<^verbatim>\<open>scan_skill\<close>)\<close>

definition extensions :: "string set" where
  "extensions = {''.py'', ''.js'', ''.ts'', ''.sh'', ''.bash'', ''.md'', ''.json'', ''.yml'',
                 ''.yaml'', ''.txt''}"

text \<open>The environment iterates over exactly the elements of \<^verbatim>\<open>extensions\<close>, each once.\<close>

definition iterates_extensions :: "env \<Rightarrow> bool" where
  "iterates_extensions e = (distinct (set_order e) \<and> set (set_order e) = extensions)"

text \<open>Lines 295, 296.\<close>

definition find_files :: "env \<Rightarrow> path \<Rightarrow> path list" where
  "find_files e skill_path = concat (map (\<lambda>ext. rglob e skill_path (''*'' @ ext)) (set_order e))"

text \<open>Lines 300 to 304.\<close>

fun scan_files :: "env \<Rightarrow> scanner \<Rightarrow> string \<Rightarrow> path list \<Rightarrow> ScanResult \<Rightarrow> ScanResult \<times> event list" where
  "scan_files e self skill [] result = (result, [])"
| "scan_files e self skill (fp # rest) result =
     (let (fs, ev) = scan_file e self fp skill;
          result1 = result\<lparr>findings := findings result @ fs\<rparr>;
          result2 = (if fs \<noteq> [] then result1\<lparr>scanned_files := scanned_files result1 + 1\<rparr>
                     else result1);
          (result3, ev') = scan_files e self skill rest result2
      in (result3, ev @ ev'))"

definition scan_skill :: "env \<Rightarrow> scanner \<Rightarrow> path \<Rightarrow> ScanResult \<times> scanner \<times> event list" where
  "scan_skill e self skill_path =
     (let skill = name skill_path;
          result = \<lparr>result_skill_name = skill, is_safe = True, findings = [],
                    total_files = 0, scanned_files = 0\<rparr>
      in if skill = ''365skill'' then
           (result\<lparr>is_safe := True\<rparr>, self, [Print (Scanning skill)])
         else if skill \<in> whitelist self then
           (result\<lparr>is_safe := True\<rparr>,
            self\<lparr>skipped_whitelist := skipped_whitelist self @ [skill]\<rparr>,
            [Print (Scanning skill), Print Skip_whitelisted])
         else
           let files_to_scan = find_files e skill_path;
               (result', ev) =
                 scan_files e self skill files_to_scan (result\<lparr>total_files := length files_to_scan\<rparr>)
           in (result'\<lparr>is_safe := (length (findings result') = 0)\<rparr>,
               self,
               [Print (Scanning skill)]
               @ map (\<lambda>ext. Rglob skill_path (''*'' @ ext)) (set_order e)
               @ ev))"


section \<open>Scan orchestrator (\<^verbatim>\<open>scan_all_skills\<close>) and construction\<close>

text \<open>Lines 321 to 324.\<close>

fun scan_paths ::
  "env \<Rightarrow> scanner \<Rightarrow> path list \<Rightarrow> ScanResult list \<Rightarrow> ScanResult list \<times> scanner \<times> event list" where
  "scan_paths e self [] rs = (rs, self, [])"
| "scan_paths e self (skill_path # rest) rs =
     (let (result, self1, ev) = scan_skill e self skill_path;
          self2 = self1\<lparr>results := results self1 @ [result]\<rparr>;
          (rs', self3, ev') = scan_paths e self2 rest (rs @ [result])
      in (rs', self3, ev @ ev'))"

text \<open>
  The target is \<open>None\<close> when the caller passes none; an empty string is false in the
  test of line 313 and selects the same branch. Line 319 keeps the directories below the
  skills directory whose name does not start with a dot; \<^verbatim>\<open>iterdir\<close> raises when the
  skills directory cannot be listed, and nothing catches it.
\<close>

definition scan_all_skills ::
  "env \<Rightarrow> scanner \<Rightarrow> string option \<Rightarrow> exn + (ScanResult list \<times> scanner \<times> event list)" where
  "scan_all_skills e self target_skill =
     (if target_skill \<noteq> None \<and> target_skill \<noteq> Some [] then
        let skill_paths = [joinpath (skills_dir self) (the target_skill)]
        in if \<not> path_exists e (hd skill_paths) then
             Inr ([], self, [Exists (hd skill_paths), Print (Skill_not_found (the target_skill))])
           else
             (let (rs, self', ev) = scan_paths e self skill_paths []
              in Inr (rs, self', Exists (hd skill_paths) # ev))
      else
        case iterdir e (skills_dir self) of
          Inl x \<Rightarrow> Inl x
        | Inr ds \<Rightarrow>
            (let skill_paths = filter (\<lambda>d. is_dir e d \<and> \<not> startswith (name d) ''.'') ds;
                 (rs, self', ev) = scan_paths e self skill_paths []
             in Inr (rs, self', Iterdir (skills_dir self) # map Is_dir ds @ ev)))"

text \<open>
  Lines 72, 73 of \<^verbatim>\<open>_load_whitelist\<close>: no names when the allow-list is switched off.
  \<open>stored\<close> is the set of names that the rest of the method reads from
  \<^verbatim>\<open>whitelist.json\<close> (empty when the file is missing or cannot be parsed).
\<close>

definition load_whitelist :: "bool \<Rightarrow> string set \<Rightarrow> string set" where
  "load_whitelist use stored = (if \<not> use then {} else stored)"

text \<open>\<^verbatim>\<open>__init__\<close>.\<close>

definition init :: "string \<Rightarrow> ScanLevel \<Rightarrow> bool \<Rightarrow> string set \<Rightarrow> scanner" where
  "init dir level use stored =
     \<lparr>skills_dir = parse_parts dir, scan_level = level, results = [],
      use_whitelist = use, whitelist = load_whitelist use stored, skipped_whitelist = []\<rparr>"


section \<open>Notions of the specification\<close>

text \<open>
  What the scan guarantees of a finding returned for the file \<open>fp\<close> whose lines are
  \<open>lines\<close>: its fields are computed from the file and from one line of it, and a rule of
  its category in the selected dictionary, with its description, matched that line.
\<close>

definition finding_from ::
  "env \<Rightarrow> scanner \<Rightarrow> path \<Rightarrow> string \<Rightarrow> unicode list \<Rightarrow> RiskFinding \<Rightarrow> bool" where
  "finding_from e self fp skill lines f =
     (\<exists>rel rules pat n.
        relative_to fp (skills_dir self) = Some rel
        \<and> file_path f = str_path rel
        \<and> skill_name f = skill
        \<and> 1 \<le> line_number f \<and> line_number f \<le> length lines
        \<and> code_snippet f = make_snippet (lines ! (line_number f - 1))
        \<and> risk_level f = get_risk_level self (category f)
        \<and> recommendation f = get_recommendation self (category f)
        \<and> (category f, rules) \<in> set (select_patterns self)
        \<and> (pat, description f) \<in> set rules
        \<and> finditer e pat (lines ! (line_number f - 1)) = Inr n \<and> 0 < n)"

text \<open>
  The regular files at or below a node, and those among the files below a skill directory
  whose name ends in one of the recognized extensions: the candidate files of the
  specification.
\<close>

fun files_below :: "path \<Rightarrow> node \<Rightarrow> path list" where
  "files_below p (File ls) = [p]"
| "files_below p (Locked x) = [p]"
| "files_below p (Dir es) = concat (map (\<lambda>entry. files_below (p @ [fst entry]) (snd entry)) es)"

definition recognized :: "string \<Rightarrow> bool" where
  "recognized nm = (\<exists>ext\<in>extensions. fnmatch nm (''*'' @ ext))"

definition recognized_files :: "env \<Rightarrow> path \<Rightarrow> path list" where
  "recognized_files e skill_path =
     (case path_node e skill_path of
        Some n \<Rightarrow> filter (\<lambda>p. recognized (name p)) (files_below skill_path n)
      | None \<Rightarrow> [])"


section \<open>Example data\<close>

text \<open>
  A matcher for the examples. On every line of the example tree below it returns what
  \<^verbatim>\<open>re.finditer\<close> yields for the rules of the basic and deep dictionaries: the second
  rule of \<^verbatim>\<open>dangerous_commands\<close> matches once at each \<^verbatim>\<open>eval(\<close>, and no other rule
  matches.
\<close>

fun occurrences :: "unicode \<Rightarrow> unicode \<Rightarrow> nat" where
  "occurrences w [] = 0"
| "occurrences w (c # cs) = (if take (length w) (c # cs) = w then 1 else 0) + occurrences w cs"

definition demo_finditer :: "string \<Rightarrow> unicode \<Rightarrow> exn + nat" where
  "demo_finditer pattern line =
     Inr (if pattern = raw ''%beval%s*%('' then occurrences (ustr ''eval('') line else 0)"

definition long_line :: unicode where
  "long_line = ustr ''    eval('' @ replicate 120 97 @ ustr '')'' @ [10]"

definition demo_tree :: node where
  "demo_tree =
     Dir [(''skills'', Dir
       [(''evil'', Dir
          [(''a.py'', File [ustr ''import os'' @ [10], ustr ''  result = eval(data)  '' @ [10]]),
           (''long.py'', File [long_line]),
           (''secret.md'', Locked PermissionError),
           (''notes.txt'', File [ustr ''hello'' @ [10]])]),
        (''charts'', Dir
          [(''chart.js'', Dir [(''LICENSE'', File [ustr ''MIT'' @ [10]])])]),
        (''trusted'', Dir
          [(''t.py'', File [ustr ''eval(x)'' @ [10]])]),
        (''.hidden'', File [ustr ''eval(x)'' @ [10]])])]"

definition demo_env :: env where
  "demo_env = \<lparr>fs_root = demo_tree, cwd = [], finditer = demo_finditer,
     set_order = [''.py'', ''.js'', ''.ts'', ''.sh'', ''.bash'', ''.md'', ''.json'', ''.yml'',
                  ''.yaml'', ''.txt'']\<rparr>"

definition demo_scanner :: scanner where
  "demo_scanner = init ''/skills'' DEEP True {''trusted''}"

text \<open>A finding of a given level, and results whose findings are in either order.\<close>

definition finding_of_level :: "RiskLevel \<Rightarrow> RiskFinding" where
  "finding_of_level l = \<lparr>skill_name = ''demo'', file_path = ''demo/a.py'', line_number = 1, risk_level = l,
     category = ''c'', description = ''d'', code_snippet = [], recommendation = ''r''\<rparr>"

definition result_with :: "string \<Rightarrow> RiskLevel list \<Rightarrow> ScanResult" where
  "result_with nm levels =
     \<lparr>result_skill_name = nm, is_safe = (levels = []), findings = map finding_of_level levels,
      total_files = length levels, scanned_files = length levels\<rparr>"


text \<open>Paths of the example tree, the finding that the rule for \<^verbatim>\<open>eval\<close> yields in the
  skill \<^verbatim>\<open>evil\<close>, and results for the classification.\<close>

definition evil_dir :: path where
  "evil_dir = [''/'', ''skills'', ''evil'']"

definition eval_finding :: "string \<Rightarrow> nat \<Rightarrow> unicode \<Rightarrow> RiskFinding" where
  "eval_finding fp n snippet =
     \<lparr>skill_name = ''evil'', file_path = fp, line_number = n, risk_level = CRITICAL,
      category = ''dangerous_commands'', description = ''Dynamic code execution with eval'',
      code_snippet = snippet,
      recommendation = ''Remove dangerous commands or add strict validation''\<rparr>"

definition charts_dir :: path where
  "charts_dir = [''/'', ''skills'', ''charts'']"

definition trusted_dir :: path where
  "trusted_dir = [''/'', ''skills'', ''trusted'']"

definition demo_results :: "ScanResult list" where
  "demo_results = [result_with ''ml'' [MEDIUM, LOW], result_with ''lm'' [LOW, MEDIUM],
                   result_with ''none'' []]"

definition hidden_path :: path where
  "hidden_path = [''/'', ''skills'', ''.hidden'']"


section \<open>The two highest-risk loops agree\<close>

lemma risk_priority_inj: "risk_priority a = risk_priority b \<Longrightarrow> a = b"
  by (cases a; cases b) simp_all

lemma risk_priority_le_4: "risk_priority l \<le> 4"
  by (cases l) simp_all

lemma highest_risk_run_CRITICAL: "highest_risk_run fs CRITICAL = CRITICAL"
proof (induction fs)
  case Nil show ?case by simp
next
  case (Cons f fs)
  have "\<not> risk_priority (risk_level f) > risk_priority CRITICAL"
    using risk_priority_le_4[of "risk_level f"] by simp
  then show ?case using Cons by simp
qed

lemma print_eq_run:
  "\<forall>f\<in>set fs. risk_level f \<noteq> INFO \<Longrightarrow> highest_risk_print fs h = highest_risk_run fs h"
proof (induction fs arbitrary: h)
  case Nil
  show ?case by simp
next
  case (Cons f fs)
  have rest: "\<And>h'. highest_risk_print fs h' = highest_risk_run fs h'"
    using Cons by simp
  have f: "risk_level f \<noteq> INFO" using Cons.prems by simp
  show ?case
    using f by (cases "risk_level f"; cases h) (simp_all add: rest highest_risk_run_CRITICAL)
qed

lemma run_lower: "risk_priority h \<le> risk_priority (highest_risk_run fs h)"
proof (induction fs arbitrary: h)
  case Nil show ?case by simp
next
  case (Cons f fs)
  show ?case using Cons[of h] Cons[of "risk_level f"] by (simp add: order.strict_implies_order le_trans less_imp_le)
qed

lemma run_upper: "f \<in> set fs \<Longrightarrow> risk_priority (risk_level f) \<le> risk_priority (highest_risk_run fs h)"
proof (induction fs arbitrary: h)
  case Nil then show ?case by simp
next
  case (Cons a fs)
  show ?case
  proof (cases "f = a")
    case True
    then show ?thesis using run_lower[of "risk_level a" fs] run_lower[of h fs] by (auto simp: not_less intro: le_trans)
  next
    case False
    then show ?thesis using Cons by auto
  qed
qed

lemma run_mem: "highest_risk_run fs h = h \<or> highest_risk_run fs h \<in> risk_level ` set fs"
proof (induction fs arbitrary: h)
  case Nil show ?case by simp
next
  case (Cons a fs)
  show ?case using Cons[of h] Cons[of "risk_level a"] by auto
qed

lemma run_set_cong:
  assumes "risk_level ` set fs' = risk_level ` set fs"
  shows "highest_risk_run fs' h = highest_risk_run fs h"
proof -
  have le: "risk_priority (highest_risk_run xs h) \<le> risk_priority (highest_risk_run ys h)"
    if "risk_level ` set xs = risk_level ` set ys" for xs ys
  proof -
    from run_mem[of xs h] show ?thesis
    proof
      assume "highest_risk_run xs h = h" then show ?thesis by (simp add: run_lower)
    next
      assume "highest_risk_run xs h \<in> risk_level ` set xs"
      then have "highest_risk_run xs h \<in> risk_level ` set ys" using that by simp
      then obtain f where "f \<in> set ys" "risk_level f = highest_risk_run xs h" by auto
      then show ?thesis using run_upper[of f ys h] by simp
    qed
  qed
  show ?thesis using le[of fs' fs] le[of fs fs'] assms by (intro risk_priority_inj) (simp add: le_antisym)
qed

text \<open>
  Claim C9. For findings whose levels are among \<open>CRITICAL\<close>, \<open>HIGH\<close>, \<open>MEDIUM\<close> and
  \<open>LOW\<close>, the level computed by the \<^verbatim>\<open>elif\<close> chain of \<^verbatim>\<open>print_results\<close> on any ordering
  \<open>fs'\<close> of the findings equals the level computed by the priority comparison of
  \<^verbatim>\<open>InteractiveScanner.run\<close> on any ordering \<open>fs\<close> of them (in particular on the same one).
\<close>

theorem highest_risk_print_eq_run:
  assumes "\<forall>f\<in>set fs. risk_level f \<in> {CRITICAL, HIGH, MEDIUM, LOW}"
      and "mset fs' = mset fs"
  shows "highest_risk_print fs' INFO = highest_risk_run fs INFO"
proof -
  have s: "set fs' = set fs" using assms(2) by (rule mset_eq_setD)
  have "\<forall>f\<in>set fs'. risk_level f \<noteq> INFO" using assms(1) s by auto
  then have "highest_risk_print fs' INFO = highest_risk_run fs' INFO" by (rule print_eq_run)
  also have "\<dots> = highest_risk_run fs INFO" using s by (intro run_set_cong) simp
  finally show ?thesis .
qed

theorem highest_risk_print_eq_run_witness:
  "map risk_level (map finding_of_level [HIGH, LOW, MEDIUM]) = [HIGH, LOW, MEDIUM]
   \<and> mset (map finding_of_level [LOW, MEDIUM, HIGH]) = mset (map finding_of_level [HIGH, LOW, MEDIUM])
   \<and> highest_risk_print (map finding_of_level [LOW, MEDIUM, HIGH]) INFO
       = highest_risk_run (map finding_of_level [HIGH, LOW, MEDIUM]) INFO
   \<and> highest_risk_run (map finding_of_level [HIGH, LOW, MEDIUM]) INFO = HIGH"
proof -
  have a: "\<forall>f\<in>set (map finding_of_level [HIGH, LOW, MEDIUM]).
             risk_level f \<in> {CRITICAL, HIGH, MEDIUM, LOW}"
    by (simp add: finding_of_level_def)
  have b: "mset (map finding_of_level [LOW, MEDIUM, HIGH])
             = mset (map finding_of_level [HIGH, LOW, MEDIUM])"
    by (simp add: add.commute add.left_commute)
  have c: "highest_risk_run (map finding_of_level [HIGH, LOW, MEDIUM]) INFO = HIGH"
    by (simp add: finding_of_level_def)
  have d: "map risk_level (map finding_of_level [HIGH, LOW, MEDIUM]) = [HIGH, LOW, MEDIUM]"
    by (simp add: finding_of_level_def)
  show ?thesis using highest_risk_print_eq_run[OF a b] b c d by simp
qed

lemma classify_loop_mem:
  "(x \<in> set (critical_skills (classify_loop rs g0)) \<longleftrightarrow>
      x \<in> set (critical_skills g0) \<or>
      (\<exists>r\<in>set rs. \<not> is_safe r \<and> x = (result_skill_name r, r)
         \<and> highest_risk_print (findings r) INFO = CRITICAL))
   \<and> (x \<in> set (high_risk_skills (classify_loop rs g0)) \<longleftrightarrow>
      x \<in> set (high_risk_skills g0) \<or>
      (\<exists>r\<in>set rs. \<not> is_safe r \<and> x = (result_skill_name r, r)
         \<and> highest_risk_print (findings r) INFO = HIGH))
   \<and> (x \<in> set (medium_risk_skills (classify_loop rs g0)) \<longleftrightarrow>
      x \<in> set (medium_risk_skills g0) \<or>
      (\<exists>r\<in>set rs. \<not> is_safe r \<and> x = (result_skill_name r, r)
         \<and> highest_risk_print (findings r) INFO = MEDIUM))
   \<and> (x \<in> set (low_risk_skills (classify_loop rs g0)) \<longleftrightarrow>
      x \<in> set (low_risk_skills g0) \<or>
      (\<exists>r\<in>set rs. \<not> is_safe r \<and> x = (result_skill_name r, r)
         \<and> highest_risk_print (findings r) INFO \<in> {LOW, INFO}))"
proof (induction rs arbitrary: g0)
  case Nil show ?case by simp
next
  case (Cons r rs)
  show ?case
    by (cases "highest_risk_print (findings r) INFO") (auto simp: Cons Let_def)
qed

lemma group_of_classify:
  "x \<in> set (group_of (classify rs) g) \<longleftrightarrow>
     g \<noteq> INFO \<and> (\<exists>r\<in>set rs. \<not> is_safe r \<and> x = (result_skill_name r, r)
        \<and> (if highest_risk_print (findings r) INFO = INFO then LOW
            else highest_risk_print (findings r) INFO) = g)"
proof -
  note m = classify_loop_mem[of x rs no_groups, unfolded no_groups_def, simplified, folded no_groups_def]
  show ?thesis
  proof (cases g)
    case CRITICAL
    then show ?thesis unfolding classify_def using m by (auto split: if_splits)
  next
    case HIGH
    then show ?thesis unfolding classify_def using m by (auto split: if_splits)
  next
    case MEDIUM
    then show ?thesis unfolding classify_def using m by (auto split: if_splits)
  next
    case LOW
    then show ?thesis unfolding classify_def using m by (auto split: if_splits)
  next
    case INFO
    then show ?thesis by simp
  qed
qed

text \<open>
  Claim C3. Let the results to classify satisfy what every result of a scan satisfies:
  \<open>is_safe\<close> holds exactly when there are no findings, and no finding is \<open>INFO\<close>. Then a
  result is listed in the group of level \<open>g\<close> if and only if \<open>g\<close> is the level of one of
  its findings and no finding of it has a higher priority, that is, \<open>g\<close> is the maximum
  level among its findings. So a result with findings is in exactly one group, which does
  not depend on the order of the findings, and a result without findings is in no group.
\<close>

theorem classify_by_maximum:
  assumes "\<forall>r\<in>set rs. is_safe r = (findings r = [])"
      and "\<forall>r\<in>set rs. \<forall>f\<in>set (findings r). risk_level f \<noteq> INFO"
      and "r \<in> set rs"
  shows "(result_skill_name r, r) \<in> set (group_of (classify rs) g) \<longleftrightarrow>
           g \<in> risk_level ` set (findings r)
           \<and> (\<forall>f\<in>set (findings r). risk_priority (risk_level f) \<le> risk_priority g)"
proof -
  let ?h = "highest_risk_run (findings r) INFO"
  have pr: "highest_risk_print (findings r) INFO = ?h"
    using assms(2,3) by (intro print_eq_run) simp
  have noinfo: "\<forall>f\<in>set (findings r). risk_level f \<noteq> INFO" using assms(2,3) by simp
  have safe: "is_safe r = (findings r = [])" using assms(1,3) by simp
  have memb: "(result_skill_name r, r) \<in> set (group_of (classify rs) g) \<longleftrightarrow>
                findings r \<noteq> [] \<and> g \<noteq> INFO \<and> (if ?h = INFO then LOW else ?h) = g"
    unfolding group_of_classify
    using assms(3) safe pr by auto
  show ?thesis
  proof (cases "findings r = []")
    case True
    then show ?thesis using memb by simp
  next
    case False
    then obtain f0 where f0: "f0 \<in> set (findings r)" by (cases "findings r") auto
    have "risk_priority (risk_level f0) \<le> risk_priority ?h" using f0 by (rule run_upper)
    moreover have "risk_priority (risk_level f0) > 0" using noinfo f0 by (cases "risk_level f0") auto
    ultimately have hpos: "?h \<noteq> INFO" by (cases ?h) auto
    then have hmem: "?h \<in> risk_level ` set (findings r)" using run_mem[of "findings r" INFO] by auto
    have "g = ?h \<longleftrightarrow> g \<in> risk_level ` set (findings r)
           \<and> (\<forall>f\<in>set (findings r). risk_priority (risk_level f) \<le> risk_priority g)"
    proof
      assume "g = ?h" then show "g \<in> risk_level ` set (findings r)
           \<and> (\<forall>f\<in>set (findings r). risk_priority (risk_level f) \<le> risk_priority g)"
        using hmem run_upper by auto
    next
      assume a: "g \<in> risk_level ` set (findings r)
           \<and> (\<forall>f\<in>set (findings r). risk_priority (risk_level f) \<le> risk_priority g)"
      then obtain f where "f \<in> set (findings r)" "risk_level f = g" by auto
      then have "risk_priority g \<le> risk_priority ?h" using run_upper[of f "findings r" INFO] by simp
      moreover obtain f' where "f' \<in> set (findings r)" "risk_level f' = ?h" using hmem by auto
      then have "risk_priority ?h \<le> risk_priority g" using a by auto
      ultimately show "g = ?h" by (intro risk_priority_inj) simp
    qed
    then show ?thesis using memb False hpos by auto
  qed
qed


section \<open>Findings of a file\<close>

lemma for_each_inv:
  assumes "I s"
      and "\<And>x s s' r. x \<in> set xs \<Longrightarrow> I s \<Longrightarrow> body x s = (s', r) \<Longrightarrow> I s'"
  shows "I (fst (for_each body xs s))"
  using assms
proof (induction xs arbitrary: s)
  case Nil
  then show ?case by simp
next
  case (Cons x xs)
  obtain s' r where b: "body x s = (s', r)" by (cases "body x s")
  have s': "I s'" using Cons.prems(2)[of x s s' r] Cons.prems(1) b by simp
  show ?case
  proof (cases r)
    case None
    have "I (fst (for_each body xs s'))"
      by (rule Cons.IH[OF s']) (use Cons.prems(2) in auto)
    then show ?thesis using b None by simp
  next
    case (Some e)
    then show ?thesis using b s' by simp
  qed
qed

lemma enumerate1_mem:
  "(n, x) \<in> set (enumerate1 xs) \<Longrightarrow> 1 \<le> n \<and> n \<le> length xs \<and> xs ! (n - 1) = x"
  unfolding enumerate1_def
  by (auto simp: set_zip nth_upt simp del: upt_Suc)

lemma new_finding_from:
  assumes "(n, line) \<in> set (enumerate1 lines)"
      and "(cat, rules) \<in> set (select_patterns self)"
      and "(pat, d) \<in> set rules"
      and "finditer e pat line = Inr k" and "0 < k"
      and "new_finding self fp skill n line cat d = Inr f"
  shows "finding_from e self fp skill lines f"
proof -
  from enumerate1_mem[OF assms(1)]
  have n: "1 \<le> n" "n \<le> length lines" "lines ! (n - 1) = line" by simp_all
  from assms(6) obtain rel where
    rel: "relative_to fp (skills_dir self) = Some rel"
    and f: "f = \<lparr>skill_name = skill, file_path = str_path rel, line_number = n,
                 risk_level = get_risk_level self cat, category = cat, description = d,
                 code_snippet = make_snippet line,
                 recommendation = get_recommendation self cat\<rparr>"
    by (auto simp: new_finding_def Let_def split: option.splits)
  show ?thesis
    unfolding finding_from_def
    by (rule exI[of _ rel], rule exI[of _ rules], rule exI[of _ pat], rule exI[of _ k])
       (use n assms(2,3,4,5) in \<open>simp add: f rel\<close>)
qed

lemma scan_matches_inv:
  assumes "\<forall>f\<in>set fs. finding_from e self fp skill lines f"
      and "(n, line) \<in> set (enumerate1 lines)"
      and "(cat, rules) \<in> set (select_patterns self)"
      and "(pat, d) \<in> set rules"
      and "finditer e pat line = Inr k"
  shows "\<forall>f\<in>set (fst (scan_matches self fp skill n line cat d k fs)).
           finding_from e self fp skill lines f"
  unfolding scan_matches_def
proof (rule for_each_inv[where I = "\<lambda>fs. \<forall>f\<in>set fs. finding_from e self fp skill lines f",
        OF assms(1)])
  fix x :: nat and s s' r
  assume x: "x \<in> set [0..<k]"
    and I: "\<forall>f\<in>set s. finding_from e self fp skill lines f"
    and b: "(case new_finding self fp skill n line cat d of
               Inl e \<Rightarrow> (s, Some e) | Inr finding \<Rightarrow> (s @ [finding], None)) = (s', r)"
  have k: "0 < k" using x by auto
  show "\<forall>f\<in>set s'. finding_from e self fp skill lines f"
  proof (cases "new_finding self fp skill n line cat d")
    case (Inl a)
    then show ?thesis using b I by simp
  next
    case (Inr finding)
    then have "finding_from e self fp skill lines finding"
      by (rule new_finding_from[OF assms(2,3,4,5) k])
    then show ?thesis using b I Inr by auto
  qed
qed

lemma scan_rules_inv:
  assumes "\<forall>f\<in>set fs. finding_from e self fp skill lines f"
      and "(n, line) \<in> set (enumerate1 lines)"
      and "(cat, rules) \<in> set (select_patterns self)"
  shows "\<forall>f\<in>set (fst (scan_rules e self fp skill n line cat rules fs)).
           finding_from e self fp skill lines f"
  unfolding scan_rules_def
proof (rule for_each_inv[where I = "\<lambda>fs. \<forall>f\<in>set fs. finding_from e self fp skill lines f",
        OF assms(1)])
  fix x s s' r
  assume x: "x \<in> set rules"
    and I: "\<forall>f\<in>set s. finding_from e self fp skill lines f"
    and b: "(case finditer e (fst x) line of Inl x \<Rightarrow> (s, Some x)
             | Inr k \<Rightarrow> scan_matches self fp skill n line cat (snd x) k s) = (s', r)"
  have x': "(fst x, snd x) \<in> set rules" using x by simp
  show "\<forall>f\<in>set s'. finding_from e self fp skill lines f"
  proof (cases "finditer e (fst x) line")
    case (Inl a)
    then show ?thesis using b I by simp
  next
    case (Inr k)
    then have "s' = fst (scan_matches self fp skill n line cat (snd x) k s)" using b by simp
    then show ?thesis using scan_matches_inv[OF I assms(2,3) x' Inr] by simp
  qed
qed

lemma scan_line_inv:
  assumes "\<forall>f\<in>set fs. finding_from e self fp skill lines f"
      and "numbered \<in> set (enumerate1 lines)"
  shows "\<forall>f\<in>set (fst (scan_line e self fp skill (select_patterns self) numbered fs)).
           finding_from e self fp skill lines f"
  unfolding scan_line_def
proof (rule for_each_inv[where I = "\<lambda>fs. \<forall>f\<in>set fs. finding_from e self fp skill lines f",
        OF assms(1)])
  fix x s s' r
  assume x: "x \<in> set (select_patterns self)"
    and I: "\<forall>f\<in>set s. finding_from e self fp skill lines f"
    and b: "scan_rules e self fp skill (fst numbered) (snd numbered) (fst x) (snd x) s = (s', r)"
  have n: "(fst numbered, snd numbered) \<in> set (enumerate1 lines)" using assms(2) by simp
  have x': "(fst x, snd x) \<in> set (select_patterns self)" using x by simp
  from scan_rules_inv[OF I n x'] b
  show "\<forall>f\<in>set s'. finding_from e self fp skill lines f" by simp
qed

lemma scan_file_findings:
  assumes "f \<in> set (fst (scan_file e self fp skill))"
  shows "\<exists>lines. readlines e fp = Inr lines \<and> finding_from e self fp skill lines f"
proof (cases "readlines e fp")
  case (Inl x)
  then show ?thesis using assms by (simp add: scan_file_def)
next
  case (Inr lines)
  let ?r = "for_each (scan_line e self fp skill (select_patterns self)) (enumerate1 lines) []"
  have "\<forall>f\<in>set (fst ?r). finding_from e self fp skill lines f"
  proof (rule for_each_inv[where I = "\<lambda>fs. \<forall>f\<in>set fs. finding_from e self fp skill lines f"])
    show "\<forall>f\<in>set []. finding_from e self fp skill lines f" by simp
  next
    fix x s s' r
    assume "x \<in> set (enumerate1 lines)" "\<forall>f\<in>set s. finding_from e self fp skill lines f"
      "scan_line e self fp skill (select_patterns self) x s = (s', r)"
    then show "\<forall>f\<in>set s'. finding_from e self fp skill lines f"
      using scan_line_inv[of s e self fp skill lines x] by simp
  qed
  moreover have "fst (scan_file e self fp skill) = fst ?r"
    using Inr by (simp add: scan_file_def split: prod.splits option.splits)
  ultimately show ?thesis using assms Inr by simp
qed


section \<open>Results of a skill\<close>

lemma scan_files_result:
  "fst (scan_files e self skill files r) =
     r\<lparr>findings := findings r @ concat (map (\<lambda>p. fst (scan_file e self p skill)) files),
       scanned_files := scanned_files r
          + length (filter (\<lambda>p. fst (scan_file e self p skill) \<noteq> []) files)\<rparr>"
proof (induction files arbitrary: r)
  case Nil
  show ?case by simp
next
  case (Cons fp files)
  show ?case
    by (simp add: Cons split_beta Let_def)
qed

lemma scan_files_events:
  "snd (scan_files e self skill files r) = concat (map (\<lambda>p. snd (scan_file e self p skill)) files)"
proof (induction files arbitrary: r)
  case Nil
  show ?case by simp
next
  case (Cons fp files)
  show ?case
    by (simp add: Cons split_beta Let_def)
qed

lemma scan_skill_scanned:
  assumes "name skill_path \<noteq> ''365skill''" and "name skill_path \<notin> whitelist self"
  shows "fst (scan_skill e self skill_path) =
     \<lparr>result_skill_name = name skill_path,
      is_safe = (concat (map (\<lambda>p. fst (scan_file e self p (name skill_path))) (find_files e skill_path)) = []),
      findings = concat (map (\<lambda>p. fst (scan_file e self p (name skill_path))) (find_files e skill_path)),
      total_files = length (find_files e skill_path),
      scanned_files = length (filter (\<lambda>p. fst (scan_file e self p (name skill_path)) \<noteq> [])
                               (find_files e skill_path))\<rparr>"
  using assms
  by (simp add: scan_skill_def Let_def split_beta scan_files_result)

lemma scan_skill_events:
  assumes "name skill_path \<noteq> ''365skill''" and "name skill_path \<notin> whitelist self"
  shows "snd (snd (scan_skill e self skill_path)) =
     [Print (Scanning (name skill_path))]
     @ map (\<lambda>ext. Rglob skill_path (''*'' @ ext)) (set_order e)
     @ concat (map (\<lambda>p. snd (scan_file e self p (name skill_path))) (find_files e skill_path))"
  using assms
  by (simp add: scan_skill_def Let_def split_beta scan_files_events)

lemma scan_skill_excluded:
  assumes "name skill_path = ''365skill'' \<or> name skill_path \<in> whitelist self"
  shows "fst (scan_skill e self skill_path) =
     \<lparr>result_skill_name = name skill_path, is_safe = True, findings = [],
      total_files = 0, scanned_files = 0\<rparr>"
  using assms by (auto simp: scan_skill_def Let_def)

lemma scan_skill_safe_iff:
  "is_safe (fst (scan_skill e self skill_path)) = (findings (fst (scan_skill e self skill_path)) = [])"
proof (cases "name skill_path = ''365skill'' \<or> name skill_path \<in> whitelist self")
  case True
  then show ?thesis by (auto simp: scan_skill_def Let_def)
next
  case False
  then show ?thesis by (simp add: scan_skill_scanned)
qed

lemma get_risk_level_not_INFO: "get_risk_level self c \<noteq> INFO"
  by (simp add: get_risk_level_def)

lemma scan_skill_levels:
  assumes "f \<in> set (findings (fst (scan_skill e self skill_path)))"
  shows "risk_level f \<noteq> INFO"
proof (cases "name skill_path = ''365skill'' \<or> name skill_path \<in> whitelist self")
  case True
  then show ?thesis using assms by (simp add: scan_skill_excluded)
next
  case False
  then obtain p where "f \<in> set (fst (scan_file e self p (name skill_path)))"
    using assms by (auto simp: scan_skill_scanned)
  from scan_file_findings[OF this]
  have "risk_level f = get_risk_level self (category f)"
    by (auto simp: finding_from_def)
  then show ?thesis by (simp add: get_risk_level_not_INFO)
qed

text \<open>
  Claim C2. The result that \<^verbatim>\<open>scan_skill\<close> returns is marked safe if and only if its list
  of findings is empty, whether the skill is the tool's own package, is allow-listed or is
  scanned.
\<close>

theorem scan_skill_is_safe_iff_no_findings:
  "is_safe (fst (scan_skill e self skill_path))
     = (findings (fst (scan_skill e self skill_path)) = [])"
  by (rule scan_skill_safe_iff)

text \<open>
  Claim C5. For a skill whose name is in the allow-list of the scanner, \<^verbatim>\<open>scan_skill\<close>
  returns a result marked safe with no findings, the only effects are printed messages
  (no file is enumerated or opened), and the result is the same in every environment
  \<open>e'\<close>, whatever the files of the skill contain.
\<close>

theorem whitelisted_skill_not_scanned:
  assumes "name skill_path \<in> whitelist self"
  shows "is_safe (fst (scan_skill e self skill_path))
       \<and> findings (fst (scan_skill e self skill_path)) = []
       \<and> (\<forall>ev\<in>set (snd (snd (scan_skill e self skill_path))). \<exists>m. ev = Print m)
       \<and> fst (scan_skill e' self skill_path) = fst (scan_skill e self skill_path)"
  using assms by (auto simp: scan_skill_def Let_def)

text \<open>
  Claim C1, as amended. For every finding that \<^verbatim>\<open>scan_file\<close> returns, \<open>file_path\<close> is the
  path of the scanned file relative to the skills directory of the scanner; for a file
  below a skill directory \<open>d\<close> of the skills directory it therefore begins with the name
  \<open>d\<close> of the skill directory.
\<close>

theorem finding_path_relative_to_skills_dir:
  assumes "f \<in> set (fst (scan_file e self fp skill))"
  shows "(\<exists>rel. relative_to fp (skills_dir self) = Some rel \<and> file_path f = str_path rel)
       \<and> (\<forall>d rest. fp = skills_dir self @ d # rest \<and> \<not> is_root d
             \<longrightarrow> file_path f = join_with ''/'' (d # rest))"
proof -
  from scan_file_findings[OF assms] obtain rel where
    rel: "relative_to fp (skills_dir self) = Some rel" "file_path f = str_path rel"
    by (auto simp: finding_from_def)
  have "file_path f = join_with ''/'' (d # rest)"
    if "fp = skills_dir self @ d # rest" "\<not> is_root d" for d rest
  proof -
    have "rel = d # rest" using rel(1) that(1)
      by (auto simp: relative_to_def split: if_splits)
    then show ?thesis using rel(2) that(2) by (simp add: str_path_def)
  qed
  then show ?thesis using rel by blast
qed

text \<open>
  Claim C8. Every finding belongs to a line of the file that a rule matched; its
  \<open>code_snippet\<close> is that line
  stripped of leading and trailing whitespace when the stripped line has at most 100
  characters, and otherwise the first 100 characters of the stripped line followed by
  three dots, 103 characters in all.
\<close>

theorem snippet_stripped_or_truncated:
  assumes "f \<in> set (fst (scan_file e self fp skill))"
  shows "\<exists>lines pat n. readlines e fp = Inr lines
           \<and> 1 \<le> line_number f \<and> line_number f \<le> length lines
           \<and> finditer e pat (lines ! (line_number f - 1)) = Inr n \<and> 0 < n
           \<and> (let s = strip (lines ! (line_number f - 1))
              in (length s \<le> 100 \<longrightarrow> code_snippet f = s)
               \<and> (length s > 100 \<longrightarrow> code_snippet f = take 100 s @ ustr ''...''
                                          \<and> length (code_snippet f) = 103))"
proof -
  from scan_file_findings[OF assms] obtain lines where
    l: "readlines e fp = Inr lines" and ff: "finding_from e self fp skill lines f" by blast
  from ff obtain pat n where
    m: "finditer e pat (lines ! (line_number f - 1)) = Inr n" "0 < n"
    and b: "1 \<le> line_number f" "line_number f \<le> length lines"
    and c: "code_snippet f = make_snippet (lines ! (line_number f - 1))"
    unfolding finding_from_def by auto
  have "let s = strip (lines ! (line_number f - 1))
        in (length s \<le> 100 \<longrightarrow> code_snippet f = s)
         \<and> (length s > 100 \<longrightarrow> code_snippet f = take 100 s @ ustr ''...''
                                    \<and> length (code_snippet f) = 103)"
    by (simp add: c make_snippet_def Let_def ustr_def)
  then show ?thesis using l m b by (intro exI[of _ lines] exI[of _ pat] exI[of _ n]) simp
qed

text \<open>
  Claim C6. When opening or reading the file \<open>fp\<close> raises, \<^verbatim>\<open>scan_file\<close> returns no
  finding for it and prints a warning; the scan of an enclosing skill goes on: its
  findings are those of all the other candidate files, and the warning for \<open>fp\<close> is among
  its effects when \<open>fp\<close> is a candidate.
\<close>

theorem unreadable_file_skipped:
  assumes "readlines e fp = Inl x"
      and "name skill_path \<noteq> ''365skill''" and "name skill_path \<notin> whitelist self"
  shows "scan_file e self fp skill = ([], [Open_file fp, Print (Cannot_read_file fp x)])
       \<and> findings (fst (scan_skill e self skill_path))
           = concat (map (\<lambda>p. fst (scan_file e self p (name skill_path)))
                         (filter (\<lambda>p. p \<noteq> fp) (find_files e skill_path)))
       \<and> (fp \<in> set (find_files e skill_path)
            \<longrightarrow> Print (Cannot_read_file fp x) \<in> set (snd (snd (scan_skill e self skill_path))))"
proof -
  have sf: "scan_file e self fp sk = ([], [Open_file fp, Print (Cannot_read_file fp x)])" for sk
    using assms(1) by (simp add: scan_file_def)
  have c: "concat (map (\<lambda>p. fst (scan_file e self p sk)) ps)
         = concat (map (\<lambda>p. fst (scan_file e self p sk)) (filter (\<lambda>p. p \<noteq> fp) ps))" for ps sk
    by (induction ps) (simp_all add: sf)
  show ?thesis
    using sf c[of "name skill_path" "find_files e skill_path"]
    by (auto simp: scan_skill_scanned[OF assms(2,3)] scan_skill_events[OF assms(2,3)] intro!: bexI[of _ fp])
qed


section \<open>The three dictionaries\<close>

lemma dict_set_fresh: "k \<notin> fst ` set d \<Longrightarrow> dict_set d k v = d @ [(k, v)]"
  by (induction d) auto

lemma dict_merge_fresh:
  "distinct (map fst kvs) \<Longrightarrow> set (map fst kvs) \<inter> set (dict_keys d) = {}
     \<Longrightarrow> dict_merge d kvs = d @ kvs"
proof (induction kvs arbitrary: d)
  case Nil
  show ?case by simp
next
  case (Cons kv kvs)
  obtain k v where kv: "kv = (k, v)" by (cases kv)
  have fresh: "k \<notin> fst ` set d" using Cons.prems(2) kv by (auto simp: dict_keys_def)
  have "dict_merge (d @ [(k, v)]) kvs = (d @ [(k, v)]) @ kvs"
    using Cons.prems kv by (intro Cons.IH) (auto simp: dict_keys_def)
  then show ?case using kv fresh by (simp add: dict_set_fresh)
qed

lemma keys_basic:
  "dict_keys basic_patterns = [''sensitive_api_keys'', ''dangerous_commands'', ''suspicious_network'']"
  by (simp add: basic_patterns_def dict_keys_def)

lemma deep_extends_basic:
  "\<exists>ys. deep_patterns = basic_patterns @ ys
     \<and> map fst ys = [''code_obfuscation'', ''suspicious_file_ops'', ''data_exfiltration'', ''shell_injection'']"
  unfolding deep_patterns_def
  by (subst dict_merge_fresh) (simp_all add: keys_basic)


lemma keys_deep:
  "dict_keys deep_patterns = [''sensitive_api_keys'', ''dangerous_commands'', ''suspicious_network'',
     ''code_obfuscation'', ''suspicious_file_ops'', ''data_exfiltration'', ''shell_injection'']"
proof -
  from deep_extends_basic obtain ys where
    eq: "deep_patterns = basic_patterns @ ys"
    and ks: "map fst ys = [''code_obfuscation'', ''suspicious_file_ops'', ''data_exfiltration'', ''shell_injection'']"
    by auto
  have "dict_keys deep_patterns = dict_keys basic_patterns @ map fst ys"
    unfolding eq by (simp add: dict_keys_def)
  then show ?thesis by (simp add: keys_basic ks)
qed

lemma full_extends_deep:
  "\<exists>ys. full_patterns = deep_patterns @ ys
     \<and> map fst ys = [''behavior_analysis'', ''environment_fingerprinting'', ''persistence_hooks'']"
  unfolding full_patterns_def
  by (subst dict_merge_fresh) (simp_all add: keys_deep)

lemma keys_full:
  "dict_keys full_patterns = [''sensitive_api_keys'', ''dangerous_commands'', ''suspicious_network'',
     ''code_obfuscation'', ''suspicious_file_ops'', ''data_exfiltration'', ''shell_injection'',
     ''behavior_analysis'', ''environment_fingerprinting'', ''persistence_hooks'']"
proof -
  from full_extends_deep obtain ys where
    eq: "full_patterns = deep_patterns @ ys"
    and ks: "map fst ys = [''behavior_analysis'', ''environment_fingerprinting'', ''persistence_hooks'']"
    by auto
  have "dict_keys full_patterns = dict_keys deep_patterns @ map fst ys"
    unfolding eq by (simp add: dict_keys_def)
  then show ?thesis by (simp add: keys_deep ks)
qed

lemma psubset_by_element: "A \<subseteq> B \<Longrightarrow> x \<notin> A \<Longrightarrow> x \<in> B \<Longrightarrow> A \<subset> B"
  by blast

lemma dict_get_append: "c \<in> set (dict_keys d) \<Longrightarrow> dict_get (d @ ys) c = dict_get d c"
  by (auto simp: dict_get_def dict_keys_def map_add_dom_app_simps dom_map_of_conv_image_fst)

text \<open>
  Claim C4. The categories of the basic dictionary are a proper subset of those of the deep
  dictionary, which are a proper subset of those of the full dictionary; a category has the
  same rule list in every dictionary that contains it; and \<^verbatim>\<open>get_risk_level\<close> returns the
  same level for a category whatever the scan level of the scanner.
\<close>

theorem catalogs_nested:
  "set (dict_keys basic_patterns) \<subset> set (dict_keys deep_patterns)
   \<and> set (dict_keys deep_patterns) \<subset> set (dict_keys full_patterns)
   \<and> (\<forall>c\<in>set (dict_keys basic_patterns).
         dict_get deep_patterns c = dict_get basic_patterns c
         \<and> dict_get full_patterns c = dict_get basic_patterns c)
   \<and> (\<forall>c\<in>set (dict_keys deep_patterns). dict_get full_patterns c = dict_get deep_patterns c)
   \<and> (\<forall>self level c. get_risk_level (self\<lparr>scan_level := level\<rparr>) c = get_risk_level self c)"
proof -
  have s1: "set (dict_keys basic_patterns) \<subseteq> set (dict_keys deep_patterns)"
    by (simp add: keys_basic keys_deep)
  have n1: "''code_obfuscation'' \<notin> set (dict_keys basic_patterns)"
    by (simp add: keys_basic)
  have m1: "''code_obfuscation'' \<in> set (dict_keys deep_patterns)"
    by (simp add: keys_deep)
  have k1: "set (dict_keys basic_patterns) \<subset> set (dict_keys deep_patterns)"
    by (rule psubset_by_element[OF s1 n1 m1])
  have s2: "set (dict_keys deep_patterns) \<subseteq> set (dict_keys full_patterns)"
    by (simp add: keys_deep keys_full)
  have n2: "''behavior_analysis'' \<notin> set (dict_keys deep_patterns)"
    by (simp add: keys_deep)
  have m2: "''behavior_analysis'' \<in> set (dict_keys full_patterns)"
    by (simp add: keys_full)
  have k2: "set (dict_keys deep_patterns) \<subset> set (dict_keys full_patterns)"
    by (rule psubset_by_element[OF s2 n2 m2])
  have g1: "dict_get deep_patterns c = dict_get basic_patterns c"
    if "c \<in> set (dict_keys basic_patterns)" for c
  proof -
    from deep_extends_basic obtain ys where eq: "deep_patterns = basic_patterns @ ys" by auto
    show ?thesis unfolding eq using that by (rule dict_get_append)
  qed
  have g2: "dict_get full_patterns c = dict_get deep_patterns c"
    if "c \<in> set (dict_keys deep_patterns)" for c
  proof -
    from full_extends_deep obtain ys where eq: "full_patterns = deep_patterns @ ys" by auto
    show ?thesis unfolding eq using that by (rule dict_get_append)
  qed
  have g3: "dict_get full_patterns c = dict_get basic_patterns c"
    if "c \<in> set (dict_keys basic_patterns)" for c
  proof -
    have "c \<in> set (dict_keys deep_patterns)" by (rule subsetD[OF s1 that])
    then show ?thesis using g1[OF that] g2[of c] by simp
  qed
  have r: "get_risk_level (self\<lparr>scan_level := level\<rparr>) c = get_risk_level self c" for self level c
    by (simp add: get_risk_level_def)
  show ?thesis
  proof (intro conjI ballI allI)
    show "set (dict_keys basic_patterns) \<subset> set (dict_keys deep_patterns)" by (rule k1)
    show "set (dict_keys deep_patterns) \<subset> set (dict_keys full_patterns)" by (rule k2)
  next
    fix c assume c: "c \<in> set (dict_keys basic_patterns)"
    show "dict_get deep_patterns c = dict_get basic_patterns c" using c by (rule g1)
    show "dict_get full_patterns c = dict_get basic_patterns c" using c by (rule g3)
  next
    fix c assume "c \<in> set (dict_keys deep_patterns)"
    then show "dict_get full_patterns c = dict_get deep_patterns c" by (rule g2)
  next
    fix self level c
    show "get_risk_level (self\<lparr>scan_level := level\<rparr>) c = get_risk_level self c" by (rule r)
  qed
qed

theorem catalogs_nested_witness:
  "''dangerous_commands'' \<in> set (dict_keys basic_patterns)
   \<and> dict_get deep_patterns ''dangerous_commands'' = dict_get basic_patterns ''dangerous_commands''
   \<and> dict_get full_patterns ''dangerous_commands'' = dict_get basic_patterns ''dangerous_commands''
   \<and> ''shell_injection'' \<in> set (dict_keys deep_patterns)
   \<and> dict_get full_patterns ''shell_injection'' = dict_get deep_patterns ''shell_injection''"
proof -
  have a: "''dangerous_commands'' \<in> set (dict_keys basic_patterns)" by (simp add: keys_basic)
  have b: "''shell_injection'' \<in> set (dict_keys deep_patterns)" by (simp add: keys_deep)
  note basic = catalogs_nested[THEN conjunct2, THEN conjunct2, THEN conjunct1, rule_format, OF a]
  note deep = catalogs_nested[THEN conjunct2, THEN conjunct2, THEN conjunct2, THEN conjunct1,
      rule_format, OF b]
  show ?thesis using a b basic deep by simp
qed


section \<open>Orchestrator\<close>

lemma scan_file_config:
  assumes "skills_dir s' = skills_dir s" and "scan_level s' = scan_level s"
  shows "scan_file e s' fp skill = scan_file e s fp skill"
proof -
  have nf: "new_finding s' = new_finding s"
    using assms(1)
    by (intro ext)
       (simp add: new_finding_def get_risk_level_def get_recommendation_def cong: option.case_cong)
  have sm: "scan_matches s' = scan_matches s"
    by (intro ext) (simp add: scan_matches_def nf cong: sum.case_cong)
  have sr: "scan_rules e s' = scan_rules e s"
    by (intro ext) (simp add: scan_rules_def sm cong: sum.case_cong)
  have sl: "scan_line e s' = scan_line e s"
    by (intro ext) (simp add: scan_line_def sr)
  have sp: "select_patterns s' = select_patterns s"
    using assms(2) by (simp add: select_patterns_def)
  show ?thesis by (simp add: scan_file_def sl sp cong: sum.case_cong)
qed

lemma scan_skill_config:
  assumes "skills_dir s' = skills_dir s" and "scan_level s' = scan_level s"
      and "whitelist s' = whitelist s"
  shows "fst (scan_skill e s' p) = fst (scan_skill e s p)"
proof (cases "name p = ''365skill'' \<or> name p \<in> whitelist s")
  case True
  then show ?thesis using assms(3) by (simp add: scan_skill_excluded)
next
  case False
  then show ?thesis using assms(3) by (simp add: scan_skill_scanned scan_file_config[OF assms(1,2)])
qed

lemma scan_skill_keeps_config:
  "skills_dir (fst (snd (scan_skill e s p))) = skills_dir s
   \<and> scan_level (fst (snd (scan_skill e s p))) = scan_level s
   \<and> whitelist (fst (snd (scan_skill e s p))) = whitelist s"
  by (simp add: scan_skill_def Let_def split_beta)

lemma scan_paths_results:
  "fst (scan_paths e s ps rs) = rs @ map (\<lambda>p. fst (scan_skill e s p)) ps"
proof (induction ps arbitrary: s rs)
  case Nil
  show ?case by simp
next
  case (Cons p ps)
  let ?s2 = "(fst (snd (scan_skill e s p)))\<lparr>results := results (fst (snd (scan_skill e s p))) @ [fst (scan_skill e s p)]\<rparr>"
  have "fst (scan_skill e ?s2 q) = fst (scan_skill e s q)" for q
    by (rule scan_skill_config) (simp_all add: scan_skill_keeps_config)
  then show ?case by (simp add: split_beta Let_def Cons)
qed

text \<open>
  Claim C10. Given a non-empty target name whose path below the skills directory exists,
  \<^verbatim>\<open>scan_all_skills\<close> scans exactly that path, with no test of its name or of its being a
  directory. Without a target it scans the entries of the skills directory that are
  directories and whose name does not start with a dot.
\<close>

theorem target_scanned_when_exists:
  "(target \<noteq> [] \<and> path_exists e (joinpath (skills_dir self) target) \<longrightarrow>
      scan_all_skills e self (Some target) =
        (let p = joinpath (skills_dir self) target;
             (r, self', ev) = scan_skill e self p
         in Inr ([r], self'\<lparr>results := results self' @ [r]\<rparr>, Exists p # ev)))
   \<and> (\<forall>ds. iterdir e (skills_dir self) = Inr ds \<longrightarrow>
        (\<exists>self' ev. scan_all_skills e self None =
           Inr (map (\<lambda>p. fst (scan_skill e self p))
                    (filter (\<lambda>d. is_dir e d \<and> \<not> startswith (name d) ''.'') ds),
                self', ev)))"
proof -
  have a: "scan_all_skills e self (Some target) =
        (let p = joinpath (skills_dir self) target;
             (r, self', ev) = scan_skill e self p
         in Inr ([r], self'\<lparr>results := results self' @ [r]\<rparr>, Exists p # ev))"
    if "target \<noteq> []" "path_exists e (joinpath (skills_dir self) target)"
    using that by (simp add: scan_all_skills_def Let_def split_beta)
  have b: "\<exists>self' ev. scan_all_skills e self None =
           Inr (map (\<lambda>p. fst (scan_skill e self p))
                    (filter (\<lambda>d. is_dir e d \<and> \<not> startswith (name d) ''.'') ds),
                self', ev)"
    if "iterdir e (skills_dir self) = Inr ds" for ds
  proof -
    let ?ps = "filter (\<lambda>d. is_dir e d \<and> \<not> startswith (name d) ''.'') ds"
    let ?sp = "scan_paths e self ?ps []"
    have "scan_all_skills e self None =
            Inr (fst ?sp, fst (snd ?sp), Iterdir (skills_dir self) # map Is_dir ds @ snd (snd ?sp))"
      by (simp add: scan_all_skills_def that Let_def split_beta)
    then have "scan_all_skills e self None =
            Inr (map (\<lambda>p. fst (scan_skill e self p)) ?ps,
                 fst (snd ?sp), Iterdir (skills_dir self) # map Is_dir ds @ snd (snd ?sp))"
      by (simp only: scan_paths_results append_Nil)
    then show ?thesis by (intro exI)
  qed
  show ?thesis
  proof (intro conjI impI allI)
    assume "target \<noteq> [] \<and> path_exists e (joinpath (skills_dir self) target)"
    then have "target \<noteq> []" "path_exists e (joinpath (skills_dir self) target)" by simp_all
    then show "scan_all_skills e self (Some target) =
        (let p = joinpath (skills_dir self) target;
             (r, self', ev) = scan_skill e self p
         in Inr ([r], self'\<lparr>results := results self' @ [r]\<rparr>, Exists p # ev))"
      by (rule a)
  next
    fix ds
    assume "iterdir e (skills_dir self) = Inr ds"
    then show "\<exists>self' ev. scan_all_skills e self None =
           Inr (map (\<lambda>p. fst (scan_skill e self p))
                    (filter (\<lambda>d. is_dir e d \<and> \<not> startswith (name d) ''.'') ds),
                self', ev)"
      by (rule b)
  qed
qed


text \<open>Every result that the orchestrator returns is a result of \<^verbatim>\<open>scan_skill\<close>, so it
  satisfies what the classification assumes.\<close>

lemma scan_all_skills_no_target:
  assumes "\<not> (target \<noteq> None \<and> target \<noteq> Some [])"
  shows "scan_all_skills e self target =
     (case iterdir e (skills_dir self) of
        Inl x \<Rightarrow> Inl x
      | Inr ds \<Rightarrow>
          (let skill_paths = filter (\<lambda>d. is_dir e d \<and> \<not> startswith (name d) ''.'') ds;
               (rs, self', ev) = scan_paths e self skill_paths []
           in Inr (rs, self', Iterdir (skills_dir self) # map Is_dir ds @ ev)))"
  unfolding scan_all_skills_def by (rule if_not_P[OF assms])

lemma scan_all_skills_target:
  assumes "target \<noteq> None \<and> target \<noteq> Some []"
  shows "scan_all_skills e self target =
     (let skill_paths = [joinpath (skills_dir self) (the target)]
      in if \<not> path_exists e (hd skill_paths) then
           Inr ([], self, [Exists (hd skill_paths), Print (Skill_not_found (the target))])
         else
           (let (rs, self', ev) = scan_paths e self skill_paths []
            in Inr (rs, self', Exists (hd skill_paths) # ev)))"
  unfolding scan_all_skills_def by (rule if_P[OF assms])

lemma scan_all_skills_results:
  assumes "scan_all_skills e self target = Inr (rs, self', ev)"
  shows "\<exists>ps. rs = map (\<lambda>p. fst (scan_skill e self p)) ps"
proof (cases "target \<noteq> None \<and> target \<noteq> Some []")
  case True
  let ?ps = "[joinpath (skills_dir self) (the target)]"
  show ?thesis
  proof (cases "path_exists e (joinpath (skills_dir self) (the target))")
    case False
    then have "rs = []"
      using assms unfolding scan_all_skills_target[OF True] by (simp add: Let_def)
    then show ?thesis by simp
  next
    case exists: True
    have "rs = fst (scan_paths e self ?ps [])"
      using assms exists unfolding scan_all_skills_target[OF True]
      by (auto simp: Let_def split_beta)
    then have "rs = map (\<lambda>p. fst (scan_skill e self p)) ?ps"
      by (simp only: scan_paths_results append_Nil)
    then show ?thesis by (rule exI)
  qed
next
  case False
  show ?thesis
  proof (cases "iterdir e (skills_dir self)")
    case (Inl x)
    then show ?thesis using assms unfolding scan_all_skills_no_target[OF False] by simp
  next
    case (Inr ds)
    let ?ps = "filter (\<lambda>d. is_dir e d \<and> \<not> startswith (name d) ''.'') ds"
    have "rs = fst (scan_paths e self ?ps [])"
      using assms Inr unfolding scan_all_skills_no_target[OF False]
      by (auto simp: Let_def split_beta)
    then have "rs = map (\<lambda>p. fst (scan_skill e self p)) ?ps"
      by (simp only: scan_paths_results append_Nil)
    then show ?thesis by (rule exI)
  qed
qed

lemma scan_all_skills_results_classifiable:
  assumes "scan_all_skills e self target = Inr (rs, self', ev)" and "r \<in> set rs"
  shows "is_safe r = (findings r = []) \<and> (\<forall>f\<in>set (findings r). risk_level f \<noteq> INFO)"
proof -
  from scan_all_skills_results[OF assms(1)] assms(2)
  obtain p where r: "r = fst (scan_skill e self p)" by auto
  show ?thesis unfolding r using scan_skill_safe_iff scan_skill_levels by blast
qed

lemma whitelist_needs_use:
  "x \<in> whitelist (init dir level use stored) \<Longrightarrow> use \<and> x \<in> stored"
  by (simp add: init_def load_whitelist_def split: if_splits)


section \<open>Recognized names\<close>

lemma fnmatch_literal:
  "CHR ''*'' \<notin> set p \<Longrightarrow> CHR ''?'' \<notin> set p \<Longrightarrow> fnmatch nm p = (nm = p)"
proof (induction p arbitrary: nm)
  case Nil
  show ?case by simp
next
  case (Cons c p)
  then show ?case by (cases nm) auto
qed

lemma fnmatch_star_literal:
  assumes "CHR ''*'' \<notin> set p" and "CHR ''?'' \<notin> set p"
  shows "fnmatch nm (CHR ''*'' # p) = (\<exists>pre. nm = pre @ p)"
proof (induction nm)
  case Nil
  show ?case using assms by (auto simp: fnmatch_literal)
next
  case (Cons c cs)
  have "fnmatch (c # cs) (CHR ''*'' # p) = (c # cs = p \<or> fnmatch cs (CHR ''*'' # p))"
    using assms by (simp add: fnmatch_literal)
  also have "\<dots> = (c # cs = p \<or> (\<exists>pre. cs = pre @ p))" using Cons by simp
  also have "\<dots> = (\<exists>pre. c # cs = pre @ p)"
    by (auto simp: Cons_eq_append_conv)
  finally show ?case .
qed

lemma recognized_iff_suffix:
  "recognized nm = (\<exists>ext\<in>extensions. \<exists>pre. nm = pre @ ext)"
proof -
  have "fnmatch nm (''*'' @ ext) = (\<exists>pre. nm = pre @ ext)" if "ext \<in> extensions" for ext
  proof -
    have "CHR ''*'' \<notin> set ext" "CHR ''?'' \<notin> set ext"
      using that by (auto simp: extensions_def)
    then show ?thesis using fnmatch_star_literal[of ext nm] by simp
  qed
  then show ?thesis by (auto simp: recognized_def)
qed


section \<open>The example tree\<close>

lemma demo_env_iterates: "iterates_extensions demo_env"
  by (simp add: iterates_extensions_def demo_env_def extensions_def insert_commute)

lemmas demo_defs = scan_file_def readlines_def path_node_def demo_env_def demo_tree_def is_root_def
    enumerate1_def select_patterns_def deep_patterns_def basic_patterns_def scan_line_def scan_rules_def scan_matches_def
    demo_finditer_def raw_def ustr_def new_finding_def relative_to_def str_path_def make_snippet_def strip_def isspace_def
    get_risk_level_def critical_categories_def get_recommendation_def recommendations_def dict_get_def Let_def
    evil_dir_def eval_finding_def long_line_def

lemma demo_scanner_simps:
  "skills_dir demo_scanner = [''/'', ''skills'']"
  "scan_level demo_scanner = DEEP"
  "whitelist demo_scanner = {''trusted''}"
  by (simp_all add: demo_scanner_def init_def parse_parts_def load_whitelist_def)

lemma demo_scan_a:
  "scan_file demo_env demo_scanner (evil_dir @ [''a.py'']) ''evil''
     = ([eval_finding ''evil/a.py'' 2 (ustr ''result = eval(data)'')],
        [Open_file (evil_dir @ [''a.py''])])"
  by (simp add: demo_defs demo_scanner_simps)

lemma occurrences_replicate:
  "w \<noteq> [] \<Longrightarrow> c \<noteq> hd w \<Longrightarrow> occurrences w (replicate n c @ rest) = occurrences w rest"
  by (induction n) (auto simp: take_Cons' neq_Nil_conv)

lemma demo_scan_long:
  "scan_file demo_env demo_scanner (evil_dir @ [''long.py'']) ''evil''
     = ([eval_finding ''evil/long.py'' 1 (ustr ''eval('' @ replicate 95 97 @ ustr ''...'')],
        [Open_file (evil_dir @ [''long.py''])])"
  by (simp add: demo_defs demo_scanner_simps occurrences_replicate)

lemma demo_scan_secret:
  "scan_file demo_env demo_scanner (evil_dir @ [''secret.md'']) ''evil''
     = ([], [Open_file (evil_dir @ [''secret.md'']),
             Print (Cannot_read_file (evil_dir @ [''secret.md'']) PermissionError)])"
  by (simp add: demo_defs demo_scanner_simps)

lemma demo_scan_notes:
  "scan_file demo_env demo_scanner (evil_dir @ [''notes.txt'']) ''evil''
     = ([], [Open_file (evil_dir @ [''notes.txt''])])"
  by (simp add: demo_defs demo_scanner_simps)

lemma demo_find_files_evil:
  "find_files demo_env evil_dir
     = [evil_dir @ [''a.py''], evil_dir @ [''long.py''], evil_dir @ [''secret.md''],
        evil_dir @ [''notes.txt'']]"
  by (simp add: find_files_def rglob_def path_node_def demo_env_def demo_tree_def is_root_def evil_dir_def)

lemma demo_names:
  "name evil_dir = ''evil''" "name charts_dir = ''charts''" "name trusted_dir = ''trusted''"
  by (simp_all add: name_def evil_dir_def charts_dir_def trusted_dir_def is_root_def)

lemma demo_evil_result:
  "fst (scan_skill demo_env demo_scanner evil_dir) =
     \<lparr>result_skill_name = ''evil'', is_safe = False,
      findings = [eval_finding ''evil/a.py'' 2 (ustr ''result = eval(data)''),
                  eval_finding ''evil/long.py'' 1 (ustr ''eval('' @ replicate 95 97 @ ustr ''...'')],
      total_files = 4, scanned_files = 2\<rparr>"
  by (simp add: scan_skill_scanned demo_names demo_scanner_simps demo_find_files_evil
      demo_scan_a demo_scan_long demo_scan_secret demo_scan_notes)

lemma demo_evil_events:
  "Print (Cannot_read_file (evil_dir @ [''secret.md'']) PermissionError)
     \<in> set (snd (snd (scan_skill demo_env demo_scanner evil_dir)))"
  by (simp add: scan_skill_events demo_names demo_scanner_simps demo_find_files_evil
      demo_scan_a demo_scan_long demo_scan_secret demo_scan_notes)

lemma demo_find_files_charts:
  "find_files demo_env charts_dir = [charts_dir @ [''chart.js'']]"
  by (simp add: find_files_def rglob_def path_node_def demo_env_def demo_tree_def is_root_def charts_dir_def)

lemma demo_scan_chart_js:
  "scan_file demo_env demo_scanner (charts_dir @ [''chart.js'']) ''charts''
     = ([], [Open_file (charts_dir @ [''chart.js'']),
             Print (Cannot_read_file (charts_dir @ [''chart.js'']) IsADirectoryError)])"
  by (simp add: scan_file_def readlines_def path_node_def demo_env_def demo_tree_def is_root_def charts_dir_def)

lemma demo_charts_result:
  "fst (scan_skill demo_env demo_scanner charts_dir) =
     \<lparr>result_skill_name = ''charts'', is_safe = True, findings = [],
      total_files = 1, scanned_files = 0\<rparr>"
  by (simp add: scan_skill_scanned demo_names demo_scanner_simps demo_find_files_charts demo_scan_chart_js)

lemma demo_trusted_result:
  "fst (scan_skill demo_env demo_scanner trusted_dir) =
     \<lparr>result_skill_name = ''trusted'', is_safe = True, findings = [],
      total_files = 0, scanned_files = 0\<rparr>"
  by (simp add: scan_skill_excluded demo_names demo_scanner_simps)

text \<open>
  Claim C7, at an input where the code departs from it. The skill \<^verbatim>\<open>charts\<close> holds one
  directory, \<^verbatim>\<open>chart.js\<close>, with one file \<^verbatim>\<open>LICENSE\<close>: no file below it has a recognized
  extension, yet \<open>total_files\<close> is 1, because \<^verbatim>\<open>rglob\<close> also yields directories.
\<close>

theorem total_files_counts_directory:
  "iterates_extensions demo_env
   \<and> recognized_files demo_env charts_dir = []
   \<and> total_files (fst (scan_skill demo_env demo_scanner charts_dir)) = 1
   \<and> scanned_files (fst (scan_skill demo_env demo_scanner charts_dir)) = 0
   \<and> is_safe (fst (scan_skill demo_env demo_scanner charts_dir))"
proof -
  have "recognized_files demo_env charts_dir = []"
    by (simp add: recognized_files_def path_node_def demo_env_def demo_tree_def is_root_def
        charts_dir_def recognized_def extensions_def name_def)
  then show ?thesis by (simp add: demo_charts_result demo_env_iterates)
qed

theorem scan_skill_is_safe_iff_no_findings_witness:
  "is_safe (fst (scan_skill demo_env demo_scanner evil_dir))
     = (findings (fst (scan_skill demo_env demo_scanner evil_dir)) = [])
   \<and> findings (fst (scan_skill demo_env demo_scanner evil_dir)) \<noteq> []
   \<and> is_safe (fst (scan_skill demo_env demo_scanner charts_dir))
     = (findings (fst (scan_skill demo_env demo_scanner charts_dir)) = [])
   \<and> findings (fst (scan_skill demo_env demo_scanner charts_dir)) = []"
  using scan_skill_is_safe_iff_no_findings[of demo_env demo_scanner evil_dir]
        scan_skill_is_safe_iff_no_findings[of demo_env demo_scanner charts_dir]
  by (simp add: demo_evil_result demo_charts_result)

theorem whitelisted_skill_not_scanned_witness:
  "name trusted_dir \<in> whitelist demo_scanner
   \<and> is_safe (fst (scan_skill demo_env demo_scanner trusted_dir))
   \<and> findings (fst (scan_skill demo_env demo_scanner trusted_dir)) = []
   \<and> snd (snd (scan_skill demo_env demo_scanner trusted_dir))
        = [Print (Scanning ''trusted''), Print Skip_whitelisted]
   \<and> path_node demo_env (trusted_dir @ [''t.py'']) = Some (File [ustr ''eval(x)'' @ [10]])"
proof -
  have h: "name trusted_dir \<in> whitelist demo_scanner"
    by (simp add: demo_names demo_scanner_simps)
  have ev: "snd (snd (scan_skill demo_env demo_scanner trusted_dir))
        = [Print (Scanning ''trusted''), Print Skip_whitelisted]"
    using h by (simp add: scan_skill_def Let_def demo_names)
  have n: "path_node demo_env (trusted_dir @ [''t.py'']) = Some (File [ustr ''eval(x)'' @ [10]])"
    by (simp add: path_node_def demo_env_def demo_tree_def is_root_def trusted_dir_def)
  show ?thesis
    using whitelisted_skill_not_scanned[OF h, of demo_env demo_env] h ev n by simp
qed

theorem finding_path_relative_to_skills_dir_witness:
  "eval_finding ''evil/a.py'' 2 (ustr ''result = eval(data)'')
     \<in> set (fst (scan_file demo_env demo_scanner (evil_dir @ [''a.py'']) ''evil''))
   \<and> relative_to (evil_dir @ [''a.py'']) (skills_dir demo_scanner) = Some [''evil'', ''a.py'']
   \<and> file_path (eval_finding ''evil/a.py'' 2 (ustr ''result = eval(data)'')) = ''evil/a.py''
   \<and> ''evil/a.py'' = join_with ''/'' [''evil'', ''a.py'']"
proof -
  have h: "eval_finding ''evil/a.py'' 2 (ustr ''result = eval(data)'')
     \<in> set (fst (scan_file demo_env demo_scanner (evil_dir @ [''a.py'']) ''evil''))"
    by (simp add: demo_scan_a)
  have r: "relative_to (evil_dir @ [''a.py'']) (skills_dir demo_scanner) = Some [''evil'', ''a.py'']"
    by (simp add: relative_to_def evil_dir_def demo_scanner_simps is_root_def)
  show ?thesis
    using finding_path_relative_to_skills_dir[OF h] h r
    by (simp add: eval_finding_def)
qed

text \<open>
  Claim C1 as stated fails: the finding of \<^verbatim>\<open>/skills/evil/a.py\<close> carries the path
  \<^verbatim>\<open>evil/a.py\<close>, not the path \<^verbatim>\<open>a.py\<close> relative to the skill directory.
\<close>

theorem finding_path_not_relative_to_skill_root:
  "\<not> (\<forall>f\<in>set (fst (scan_file demo_env demo_scanner (evil_dir @ [''a.py'']) ''evil'')).
         relative_to (evil_dir @ [''a.py'']) evil_dir \<noteq> None
         \<and> file_path f = str_path (the (relative_to (evil_dir @ [''a.py'']) evil_dir)))"
proof -
  have "relative_to (evil_dir @ [''a.py'']) evil_dir = Some [''a.py'']"
    by (simp add: relative_to_def evil_dir_def is_root_def)
  moreover have "str_path [''a.py''] = ''a.py''"
    by (simp add: str_path_def is_root_def)
  moreover have "file_path (eval_finding ''evil/a.py'' 2 (ustr ''result = eval(data)'')) = ''evil/a.py''"
    by (simp add: eval_finding_def)
  ultimately show ?thesis by (simp add: demo_scan_a)
qed

theorem snippet_stripped_or_truncated_witness:
  "eval_finding ''evil/long.py'' 1 (ustr ''eval('' @ replicate 95 97 @ ustr ''...'')
     \<in> set (fst (scan_file demo_env demo_scanner (evil_dir @ [''long.py'']) ''evil''))
   \<and> readlines demo_env (evil_dir @ [''long.py'']) = Inr [long_line]
   \<and> length (strip long_line) = 126
   \<and> length (code_snippet (eval_finding ''evil/long.py'' 1
        (ustr ''eval('' @ replicate 95 97 @ ustr ''...''))) = 103"
proof -
  have h: "eval_finding ''evil/long.py'' 1 (ustr ''eval('' @ replicate 95 97 @ ustr ''...'')
     \<in> set (fst (scan_file demo_env demo_scanner (evil_dir @ [''long.py'']) ''evil''))"
    by (simp add: demo_scan_long)
  have r: "readlines demo_env (evil_dir @ [''long.py'']) = Inr [long_line]"
    by (simp add: readlines_def path_node_def demo_env_def demo_tree_def is_root_def evil_dir_def)
  have l: "length (strip long_line) = 126"
    by (simp add: strip_def long_line_def ustr_def isspace_def)
  show ?thesis
    using snippet_stripped_or_truncated[OF h] h r l
    by (simp add: eval_finding_def ustr_def)
qed

theorem unreadable_file_skipped_witness:
  "readlines demo_env (evil_dir @ [''secret.md'']) = Inl PermissionError
   \<and> scan_file demo_env demo_scanner (evil_dir @ [''secret.md'']) ''evil''
       = ([], [Open_file (evil_dir @ [''secret.md'']),
               Print (Cannot_read_file (evil_dir @ [''secret.md'']) PermissionError)])
   \<and> evil_dir @ [''secret.md''] \<in> set (find_files demo_env evil_dir)
   \<and> map file_path (findings (fst (scan_skill demo_env demo_scanner evil_dir)))
       = [''evil/a.py'', ''evil/long.py'']
   \<and> Print (Cannot_read_file (evil_dir @ [''secret.md'']) PermissionError)
       \<in> set (snd (snd (scan_skill demo_env demo_scanner evil_dir)))"
proof -
  have r: "readlines demo_env (evil_dir @ [''secret.md'']) = Inl PermissionError"
    by (simp add: readlines_def path_node_def demo_env_def demo_tree_def is_root_def evil_dir_def)
  have n: "name evil_dir \<noteq> ''365skill''" "name evil_dir \<notin> whitelist demo_scanner"
    by (simp_all add: demo_names demo_scanner_simps)
  have m: "evil_dir @ [''secret.md''] \<in> set (find_files demo_env evil_dir)"
    by (simp add: demo_find_files_evil)
  have f: "map file_path (findings (fst (scan_skill demo_env demo_scanner evil_dir)))
       = [''evil/a.py'', ''evil/long.py'']"
    by (simp add: demo_evil_result eval_finding_def)
  show ?thesis
    using unreadable_file_skipped[OF r n, of "''evil''"] r m f by simp
qed

theorem classify_by_maximum_witness:
  "map is_safe demo_results = [False, False, True]
   \<and> map (map risk_level \<circ> findings) demo_results = [[MEDIUM, LOW], [LOW, MEDIUM], []]
   \<and> (''ml'', result_with ''ml'' [MEDIUM, LOW]) \<in> set (group_of (classify demo_results) MEDIUM)
   \<and> (''lm'', result_with ''lm'' [LOW, MEDIUM]) \<in> set (group_of (classify demo_results) MEDIUM)
   \<and> (''ml'', result_with ''ml'' [MEDIUM, LOW]) \<notin> set (group_of (classify demo_results) LOW)
   \<and> (''lm'', result_with ''lm'' [LOW, MEDIUM]) \<notin> set (group_of (classify demo_results) HIGH)
   \<and> (''none'', result_with ''none'' []) \<notin> set (group_of (classify demo_results) LOW)"
proof -
  have a: "\<forall>r\<in>set demo_results. is_safe r = (findings r = [])"
    by (simp add: demo_results_def result_with_def)
  have b: "\<forall>r\<in>set demo_results. \<forall>f\<in>set (findings r). risk_level f \<noteq> INFO"
    by (simp add: demo_results_def result_with_def finding_of_level_def)
  have m: "result_with ''ml'' [MEDIUM, LOW] \<in> set demo_results"
    "result_with ''lm'' [LOW, MEDIUM] \<in> set demo_results"
    "result_with ''none'' [] \<in> set demo_results"
    by (simp_all add: demo_results_def)
  have n: "result_skill_name (result_with nm ls) = nm" for nm ls
    by (simp add: result_with_def)
  have c: "map is_safe demo_results = [False, False, True]"
    "map (map risk_level \<circ> findings) demo_results = [[MEDIUM, LOW], [LOW, MEDIUM], []]"
    by (simp_all add: demo_results_def result_with_def finding_of_level_def)
  show ?thesis
    using c
      classify_by_maximum[OF a b m(1), of MEDIUM]
      classify_by_maximum[OF a b m(2), of MEDIUM]
      classify_by_maximum[OF a b m(1), of LOW]
      classify_by_maximum[OF a b m(2), of HIGH]
      classify_by_maximum[OF a b m(3), of LOW]
    by (simp add: n) (simp add: result_with_def finding_of_level_def)
qed

lemma demo_hidden_result:
  "fst (scan_skill demo_env demo_scanner hidden_path) =
     \<lparr>result_skill_name = ''.hidden'', is_safe = True, findings = [],
      total_files = 0, scanned_files = 0\<rparr>"
proof -
  have n: "name hidden_path = ''.hidden''"
    by (simp add: name_def hidden_path_def is_root_def)
  have f: "find_files demo_env hidden_path = []"
    by (simp add: find_files_def rglob_def path_node_def demo_env_def demo_tree_def is_root_def
        hidden_path_def)
  show ?thesis
    by (simp add: scan_skill_scanned n f demo_scanner_simps)
qed

lemma demo_iterdir:
  "iterdir demo_env (skills_dir demo_scanner) = Inr [evil_dir, charts_dir, trusted_dir, hidden_path]"
  by (simp add: iterdir_def path_node_def demo_env_def demo_tree_def is_root_def demo_scanner_simps
      evil_dir_def charts_dir_def trusted_dir_def hidden_path_def)

lemma demo_skill_dirs:
  "filter (\<lambda>d. is_dir demo_env d \<and> \<not> startswith (name d) ''.'')
     [evil_dir, charts_dir, trusted_dir, hidden_path] = [evil_dir, charts_dir, trusted_dir]"
  by (simp add: is_dir_def path_node_def demo_env_def demo_tree_def is_root_def startswith_def
      name_def evil_dir_def charts_dir_def trusted_dir_def hidden_path_def)

theorem target_scanned_when_exists_witness:
  "''.hidden'' \<noteq> []
   \<and> joinpath (skills_dir demo_scanner) ''.hidden'' = hidden_path
   \<and> path_exists demo_env hidden_path
   \<and> startswith (name hidden_path) ''.''
   \<and> \<not> is_dir demo_env hidden_path
   \<and> fst (projr (scan_all_skills demo_env demo_scanner (Some ''.hidden'')))
       = [\<lparr>result_skill_name = ''.hidden'', is_safe = True, findings = [],
            total_files = 0, scanned_files = 0\<rparr>]
   \<and> map result_skill_name (fst (projr (scan_all_skills demo_env demo_scanner None)))
       = [''evil'', ''charts'', ''trusted'']"
proof -
  have j: "joinpath (skills_dir demo_scanner) ''.hidden'' = hidden_path"
    by (simp add: joinpath_def parse_parts_def demo_scanner_simps hidden_path_def is_root_def)
  have x: "path_exists demo_env hidden_path"
    by (simp add: path_exists_def path_node_def demo_env_def demo_tree_def is_root_def hidden_path_def)
  have s: "startswith (name hidden_path) ''.''"
    by (simp add: startswith_def name_def hidden_path_def is_root_def)
  have d: "\<not> is_dir demo_env hidden_path"
    by (simp add: is_dir_def path_node_def demo_env_def demo_tree_def is_root_def hidden_path_def)
  have h: "''.hidden'' \<noteq> [] \<and> path_exists demo_env (joinpath (skills_dir demo_scanner) ''.hidden'')"
    using x by (simp add: j)
  note t = target_scanned_when_exists[of "''.hidden''" demo_env demo_scanner]
  have one: "fst (projr (scan_all_skills demo_env demo_scanner (Some ''.hidden'')))
       = [\<lparr>result_skill_name = ''.hidden'', is_safe = True, findings = [],
            total_files = 0, scanned_files = 0\<rparr>]"
    using t[THEN conjunct1, rule_format, OF h] demo_hidden_result
    by (simp add: j Let_def split_beta)
  from t[THEN conjunct2, rule_format, OF demo_iterdir]
  obtain self' ev where "scan_all_skills demo_env demo_scanner None =
      Inr (map (\<lambda>p. fst (scan_skill demo_env demo_scanner p)) [evil_dir, charts_dir, trusted_dir],
           self', ev)"
    unfolding demo_skill_dirs by auto
  then have all: "map result_skill_name (fst (projr (scan_all_skills demo_env demo_scanner None)))
       = [''evil'', ''charts'', ''trusted'']"
    by (simp add: demo_evil_result demo_charts_result demo_trusted_result)
  show ?thesis using j x s d one all by simp
qed

end
